theory Spec2Isabelle
  imports Main "HOL-Library.Word" "HOL-Library.Char_ord" "HOL-Library.List_Lexorder"
    "HOL-Library.Multiset"
begin

section \<open>Go library functions used by the wrapper\<close>

text \<open>
  Go strings are byte strings: \<open>string\<close>. A Go \<open>error\<close> of this program is always made
  by \<open>errors.New\<close> or \<open>fmt.Errorf\<close>; it is modelled by its message, and a nil error by
  \<open>None\<close>. Go \<open>int\<close> is taken to be 64 bits wide.
\<close>

definition digit_char :: "nat \<Rightarrow> char" where
  "digit_char d = ''0123456789'' ! d"

fun digits :: "nat \<Rightarrow> string" where
  "digits n = (if n < 10 then [digit_char n] else digits (n div 10) @ [digit_char (n mod 10)])"

declare digits.simps [simp del]

text \<open>\<open>strconv.Itoa\<close>, also the verb \<open>%d\<close> of \<open>fmt.Sprintf\<close>.\<close>

definition Itoa :: "int \<Rightarrow> string" where
  "Itoa i = (if i < 0 then CHR ''-'' # digits (nat (- i)) else digits (nat i))"

definition digit_val :: "char \<Rightarrow> nat option" where
  "digit_val ch = map_of (zip ''0123456789'' [0, 1, 2, 3, 4, 5, 6, 7, 8, 9]) ch"

fun parse_digits :: "string \<Rightarrow> nat \<Rightarrow> nat option" where
  "parse_digits [] n = Some n"
| "parse_digits (ch # s) n =
     (case digit_val ch of None \<Rightarrow> None | Some d \<Rightarrow> parse_digits s (n * 10 + d))"

text \<open>
  \<open>strconv.Atoi\<close>: an optional sign, then one or more decimal digits, and the value must
  fit a 64-bit \<open>int\<close>; \<open>None\<close> is a non-nil error.
\<close>

definition Atoi :: "string \<Rightarrow> int option" where
  "Atoi s0 =
     (if s0 = [] then None
      else
        let s = (if hd s0 = CHR ''-'' \<or> hd s0 = CHR ''+'' then tl s0 else s0)
        in if s = [] then None
           else (case parse_digits s 0 of
                   None \<Rightarrow> None
                 | Some n \<Rightarrow>
                     let i = (if hd s0 = CHR ''-'' then - int n else int n)
                     in if - (2 ^ 63) \<le> i \<and> i < 2 ^ 63 then Some i else None))"

definition HasPrefix :: "string \<Rightarrow> string \<Rightarrow> bool" where
  "HasPrefix s p = (take (length p) s = p)"

definition TrimPrefix :: "string \<Rightarrow> string \<Rightarrow> string" where
  "TrimPrefix s p = (if HasPrefix s p then drop (length p) s else s)"

fun Join :: "string list \<Rightarrow> string \<Rightarrow> string" where
  "Join [] sep = []"
| "Join [x] sep = x"
| "Join (x # y # ys) sep = x @ sep @ Join (y # ys) sep"




text \<open>The conversion \<open>C.state_bn(i)\<close> of a Go \<open>int\<close> to a C \<open>int\<close> keeps the low 32 bits.\<close>

definition state_bn :: "int \<Rightarrow> int" where
  "state_bn i = sint (word_of_int i :: 32 word)"

section \<open>The inference engine\<close>

text \<open>
  Modelled from the spec: the external inference engine (the Netica C library reached
  through cgo), of which the repository holds only the calls. The model keeps what the spec
  says of it: an engine holds networks of named nodes with ordered state names; a node has
  at most one finding; retracting removes findings; every call may report errors, which
  queue up until they are drained. Everything else the engine decides is left open, as the
  functions of the record \<open>extern\<close> below, and no theorem restricts them.

  A \<open>*C.net_bn\<close> is a number; a \<open>*C.node_bn\<close> is the network and the position of the node
  in the network's node list. The type variable \<open>'v\<close> stands for \<open>float64\<close>.
\<close>

type_synonym net_bn = nat
type_synonym node_bn = "net_bn \<times> nat"
type_synonym report = "int \<times> string"

datatype 'v finding = StateFinding int | ValueFinding 'v

record 'v node_desc =
  node_name :: string
  node_title :: string
  node_comment :: string
  node_continuous :: bool
  node_states :: "string list"
  node_levels :: "(nat \<Rightarrow> 'v) option"

record 'v net_desc =
  net_name :: string
  net_title :: string
  net_comment :: string
  net_nodes :: "'v node_desc list"

text \<open>
  The state of the process: the engine's pending error reports, its networks in the order
  they were read, their descriptions and findings; the wrapper's lock table
  (\<open>Environment.netlocks\<close>, \<open>True\<close> for a held lock); what \<open>log.Println\<close> printed; and,
  for the statements about the critical section, the findings that each release of a lock
  left behind (\<open>released\<close>, written by \<open>Unlock\<close> only and read by no function).
\<close>

record 'v netica =
  errq :: "report list"
  live :: "net_bn list"
  next_net :: net_bn
  desc :: "net_bn \<Rightarrow> 'v net_desc"
  finds :: "net_bn \<Rightarrow> nat \<rightharpoonup> 'v finding"
  netlocks :: "net_bn \<rightharpoonup> bool"
  logged :: "string list"
  released :: "(net_bn \<times> (nat \<rightharpoonup> 'v finding)) list"

text \<open>The calls of the C interface that the wrapper makes.\<close>

datatype 'v call =
    NewMemoryStream_ns string
  | DeleteStream_ns
  | SetStreamContents_ns string
  | ReadNet_bn string
  | CompileNet_bn net_bn
  | SetNetAutoUpdate_bn net_bn
  | DeleteNet_bn net_bn
  | GetNthNet_bn nat
  | GetNetName_bn net_bn
  | GetNetTitle_bn net_bn
  | GetNetComment_bn net_bn
  | GetNodeNamed_bn string net_bn
  | GetNetNodes2_bn net_bn
  | NthNode_bn net_bn nat
  | DeleteNodeList_bn net_bn
  | GetNodeName_bn node_bn
  | GetNodeTitle_bn node_bn
  | GetNodeComment_bn node_bn
  | GetNodeType_bn node_bn
  | GetStateNamed_bn string node_bn
  | GetNodeNumberStates_bn node_bn
  | GetNodeStateName_bn node_bn int
  | GetNodeLevels_bn node_bn
  | NthLevel_bn node_bn nat
  | EnterFinding_bn node_bn int
  | EnterNodeValue_bn node_bn 'v
  | RetractNodeFindings_bn node_bn
  | RetractNetFindings_bn net_bn
  | GetNodeBeliefs_bn node_bn
  | NthProb_bn node_bn nat
  | GetNodeExpectedValue_bn node_bn

text \<open>
  What is outside the repository and not fixed by the spec: the three operations on
  \<open>float64\<close> that the code uses, the order in which Go ranges over a map, the file system,
  and the decisions of the engine (which errors a call reports, what a node holds after a
  finding was entered, the beliefs, the expected value and the value that stands for an
  undefined one, the network that a file's bytes describe).
\<close>

record 'v extern =
  ParseFloat :: "string \<Rightarrow> 'v option"
  FormatFloat :: "'v \<Rightarrow> string"
  float_gt :: "'v \<Rightarrow> 'v \<Rightarrow> bool"
  range_order ::
    "'v netica \<Rightarrow> (string \<times> node_bn) list \<Rightarrow> (string \<times> node_bn) list"
  os_Open :: "string \<Rightarrow> string option"
  ReadAll :: "string \<Rightarrow> string + string"
  Clean :: "string \<Rightarrow> string"
  Rel :: "string \<Rightarrow> string \<Rightarrow> string"
  reports :: "'v call \<Rightarrow> 'v netica \<Rightarrow> report list"
  entered :: "'v netica \<Rightarrow> node_bn \<Rightarrow> 'v finding \<Rightarrow> 'v finding option"
  beliefs :: "'v netica \<Rightarrow> node_bn \<Rightarrow> nat \<Rightarrow> 'v"
  expected_value :: "'v netica \<Rightarrow> node_bn \<Rightarrow> 'v \<times> 'v"
  UndefDbl :: 'v
  parsed_net :: "string \<Rightarrow> 'v net_desc"

definition set_finding :: "node_bn \<Rightarrow> 'v finding option \<Rightarrow> 'v netica \<Rightarrow> 'v netica" where
  "set_finding node f w =
     w\<lparr>finds := (finds w)(fst node := (finds w (fst node))(snd node := f))\<rparr>"

text \<open>What a call does to the engine's networks and findings.\<close>

fun effect :: "'v extern \<Rightarrow> 'v call \<Rightarrow> 'v netica \<Rightarrow> 'v netica" where
  "effect X (EnterFinding_bn node state) w =
     set_finding node (entered X w node (StateFinding state)) w"
| "effect X (EnterNodeValue_bn node v) w =
     set_finding node (entered X w node (ValueFinding v)) w"
| "effect X (RetractNodeFindings_bn node) w = set_finding node None w"
| "effect X (RetractNetFindings_bn net) w = w\<lparr>finds := (finds w)(net := Map.empty)\<rparr>"
| "effect X (ReadNet_bn bytes) w =
     w\<lparr>live := live w @ [next_net w],
       desc := (desc w)(next_net w := parsed_net X bytes),
       finds := (finds w)(next_net w := Map.empty),
       next_net := Suc (next_net w)\<rparr>"
| "effect X (DeleteNet_bn net) w = w\<lparr>live := removeAll net (live w)\<rparr>"
| "effect X other w = w"

text \<open>A call: its effect, and the errors it reports behind those already pending.\<close>

definition C :: "'v extern \<Rightarrow> 'v call \<Rightarrow> 'v netica \<Rightarrow> 'v netica" where
  "C X c w = (effect X c w)\<lparr>errq := errq w @ reports X c w\<rparr>"

definition the_node :: "'v netica \<Rightarrow> node_bn \<Rightarrow> 'v node_desc option" where
  "the_node w node =
     (let ns = net_nodes (desc w (fst node))
      in if snd node < length ns then Some (ns ! snd node) else None)"

text \<open>The values that the read-only calls return.\<close>

definition UNDEF_STATE :: int where
  "UNDEF_STATE = - 3"

fun index_of :: "'a \<Rightarrow> 'a list \<Rightarrow> nat option" where
  "index_of x [] = None"
| "index_of x (y # ys) = (if x = y then Some 0 else map_option Suc (index_of x ys))"

definition number_states :: "'v netica \<Rightarrow> node_bn \<Rightarrow> nat" where
  "number_states w node = (case the_node w node of None \<Rightarrow> 0 | Some d \<Rightarrow> length (node_states d))"

definition state_named :: "'v netica \<Rightarrow> string \<Rightarrow> node_bn \<Rightarrow> int" where
  "state_named w name node =
     (case the_node w node of
        None \<Rightarrow> UNDEF_STATE
      | Some d \<Rightarrow> (case index_of name (node_states d) of
                    None \<Rightarrow> UNDEF_STATE
                  | Some i \<Rightarrow> int i))"

definition state_name :: "'v netica \<Rightarrow> node_bn \<Rightarrow> int \<Rightarrow> string" where
  "state_name w node i =
     (case the_node w node of
        None \<Rightarrow> []
      | Some d \<Rightarrow> if 0 \<le> i \<and> nat i < length (node_states d) then node_states d ! nat i else [])"

definition node_named :: "'v netica \<Rightarrow> string \<Rightarrow> net_bn \<Rightarrow> node_bn option" where
  "node_named w name net =
     map_option (Pair net) (index_of name (map node_name (net_nodes (desc w net))))"

definition node_field :: "('v node_desc \<Rightarrow> string) \<Rightarrow> 'v netica \<Rightarrow> node_bn \<Rightarrow> string" where
  "node_field f w node = (case the_node w node of None \<Rightarrow> [] | Some d \<Rightarrow> f d)"

section \<open>environment.go\<close>

text \<open>
  \<open>Environment.Errors\<close>: the loop takes the first pending report (\<open>GetError_ns\<close>), formats
  it and clears it (\<open>ClearError_ns\<close>), until none is left.
\<close>

definition GetError_ns :: "'v netica \<Rightarrow> report option" where
  "GetError_ns w = (case errq w of [] \<Rightarrow> None | r # _ \<Rightarrow> Some r)"

definition ClearError_ns :: "report \<Rightarrow> 'v netica \<Rightarrow> 'v netica" where
  "ClearError_ns r w = w\<lparr>errq := remove1 r (errq w)\<rparr>"

definition report_message :: "report \<Rightarrow> string" where
  "report_message r = Itoa (fst r) @ '' - '' @ snd r"

function Errors_loop :: "'v netica \<Rightarrow> string list \<Rightarrow> string list \<times> 'v netica" where
  "Errors_loop w messages =
     (case GetError_ns w of
        None \<Rightarrow> (messages, w)
      | Some cRep \<Rightarrow> Errors_loop (ClearError_ns cRep w) (messages @ [report_message cRep]))"
  by pat_completeness auto
termination
  by (relation "measure (\<lambda>(w, messages). length (errq w))")
     (auto simp: GetError_ns_def ClearError_ns_def split: list.splits)

declare Errors_loop.simps [simp del]

definition Errors :: "'v netica \<Rightarrow> string option \<times> 'v netica" where
  "Errors w =
     (case Errors_loop w [] of
        (messages, w') \<Rightarrow> (if messages \<noteq> [] then Some (Join messages [CHR 0x0A]) else None, w'))"


section \<open>node.go\<close>

text \<open>
  A \<open>Node\<close> is its \<open>*C.node_bn\<close>; the network it points back to is the first component,
  and reaches the one environment whose \<open>Errors\<close> every method calls. A method takes the
  state of the process and returns its results with the new state; a result
  \<open>(value, error)\<close> is \<open>Inl\<close> the error or \<open>Inr\<close> the value. A loop over the indices
  below a length is \<open>for_collect\<close>, which appends what each round yields.
\<close>

text \<open>
  How a call ends when it does not return to its caller: with one of the run-time panics
  that the code can raise, or blocked on a mutex that is held. The model follows one
  goroutine, so nobody releases the mutex and the call waits for ever.
\<close>

datatype stop = IndexOutOfRange | NilDereference | UnlockOfUnlockedMutex | Blocked

datatype failure = Error string | Panicked stop

fun for_collect :: "(nat \<Rightarrow> 'w \<Rightarrow> 'a \<times> 'w) \<Rightarrow> nat list \<Rightarrow> 'w \<Rightarrow> 'a list \<times> 'w" where
  "for_collect body [] w = ([], w)"
| "for_collect body (index # rest) w =
     (case body index w of
        (x, w1) \<Rightarrow> (case for_collect body rest w1 of (xs, w2) \<Rightarrow> (x # xs, w2)))"

definition Node_Name :: "'v extern \<Rightarrow> node_bn \<Rightarrow> 'v netica \<Rightarrow> string \<times> 'v netica" where
  "Node_Name X node w = (node_field node_name w node, C X (GetNodeName_bn node) w)"

definition Node_Title :: "'v extern \<Rightarrow> node_bn \<Rightarrow> 'v netica \<Rightarrow> string \<times> 'v netica" where
  "Node_Title X node w = (node_field node_title w node, C X (GetNodeTitle_bn node) w)"

definition Node_Comment :: "'v extern \<Rightarrow> node_bn \<Rightarrow> 'v netica \<Rightarrow> string \<times> 'v netica" where
  "Node_Comment X node w = (node_field node_comment w node, C X (GetNodeComment_bn node) w)"

definition IsContinuousType :: "'v extern \<Rightarrow> node_bn \<Rightarrow> 'v netica \<Rightarrow> bool \<times> 'v netica" where
  "IsContinuousType X node w =
     ((case the_node w node of None \<Rightarrow> False | Some d \<Rightarrow> node_continuous d),
      C X (GetNodeType_bn node) w)"

definition StateNamed ::
  "'v extern \<Rightarrow> node_bn \<Rightarrow> string \<Rightarrow> 'v netica \<Rightarrow> (string + int) \<times> 'v netica" where
  "StateNamed X node name w =
     (let cIndex = state_named w name node
      in case Errors (C X (GetStateNamed_bn name node) w) of
           (Some err, w1) \<Rightarrow> (Inl err, w1)
         | (None, w1) \<Rightarrow>
             if cIndex = UNDEF_STATE
             then (case Node_Name X node w1 of
                     (node_nm, w2) \<Rightarrow>
                       (Inl (''In function Node.StateNamed: state '' @ name
                             @ '' not defined for node '' @ node_nm), w2))
             else (Inr cIndex, w1))"

definition StateNameList ::
  "'v extern \<Rightarrow> node_bn \<Rightarrow> 'v netica \<Rightarrow> (string + string list) \<times> 'v netica" where
  "StateNameList X node w =
     (let length_c = number_states w node
      in case for_collect
                (\<lambda>index w'. (state_name w' node (state_bn (int index)),
                              C X (GetNodeStateName_bn node (state_bn (int index))) w'))
                [0..<length_c] (C X (GetNodeNumberStates_bn node) w) of
           (stateNames, w1) \<Rightarrow>
             (case Errors w1 of
                (Some err, w2) \<Rightarrow> (Inl err, w2)
              | (None, w2) \<Rightarrow> (Inr stateNames, w2)))"

definition LevelList ::
  "'v extern \<Rightarrow> node_bn \<Rightarrow> 'v netica \<Rightarrow> (string + 'v list) \<times> 'v netica" where
  "LevelList X node w =
     (let w1 = C X (GetNodeLevels_bn node) w
      in case (case the_node w node of None \<Rightarrow> None | Some d \<Rightarrow> node_levels d) of
           None \<Rightarrow> (Inr [], w1)
         | Some cLevels \<Rightarrow>
             (let length0 = number_states w1 node
              in case IsContinuousType X node (C X (GetNodeNumberStates_bn node) w1) of
                   (continuous, w2) \<Rightarrow>
                     (case for_collect
                             (\<lambda>index w'. (cLevels index, C X (NthLevel_bn node index) w'))
                             [0..<(if continuous then Suc length0 else length0)] w2 of
                        (levels, w3) \<Rightarrow>
                          (case Errors w3 of
                             (Some err, w4) \<Rightarrow> (Inl err, w4)
                           | (None, w4) \<Rightarrow> (Inr levels, w4)))))"

definition ClearFindings :: "'v extern \<Rightarrow> node_bn \<Rightarrow> 'v netica \<Rightarrow> string option \<times> 'v netica" where
  "ClearFindings X node w = Errors (C X (RetractNodeFindings_bn node) w)"

definition SetState ::
  "'v extern \<Rightarrow> node_bn \<Rightarrow> int \<Rightarrow> 'v netica \<Rightarrow> string option \<times> 'v netica" where
  "SetState X node state w =
     (case Errors (C X (EnterFinding_bn node (state_bn state)) w) of
        (Some err, w1) \<Rightarrow> (case ClearFindings X node w1 of (ignored, w2) \<Rightarrow> (Some err, w2))
      | (None, w1) \<Rightarrow> (None, w1))"

definition SetValue ::
  "'v extern \<Rightarrow> node_bn \<Rightarrow> 'v \<Rightarrow> 'v netica \<Rightarrow> string option \<times> 'v netica" where
  "SetValue X node v w =
     (case Errors (C X (EnterNodeValue_bn node v) w) of
        (Some err, w1) \<Rightarrow> (case ClearFindings X node w1 of (ignored, w2) \<Rightarrow> (Some err, w2))
      | (None, w1) \<Rightarrow> (None, w1))"

definition EnterFinding ::
  "'v extern \<Rightarrow> node_bn \<Rightarrow> string \<Rightarrow> 'v netica \<Rightarrow> string option \<times> 'v netica" where
  "EnterFinding X node evidence w =
     (case ParseFloat X evidence of
        Some v \<Rightarrow> SetValue X node v w
      | None \<Rightarrow>
          (case (if HasPrefix evidence ''#'' then Atoi (TrimPrefix evidence ''#'') else None) of
             Some index \<Rightarrow> SetState X node index w
           | None \<Rightarrow>
               (case StateNamed X node evidence w of
                  (Inl err, w1) \<Rightarrow> (Some err, w1)
                | (Inr index, w1) \<Rightarrow> SetState X node index w1)))"

definition BeliefList ::
  "'v extern \<Rightarrow> node_bn \<Rightarrow> 'v netica \<Rightarrow> (string + 'v list) \<times> 'v netica" where
  "BeliefList X node w =
     (let w1 = C X (GetNodeBeliefs_bn node) w;
          length_c = number_states w1 node
      in case for_collect
                (\<lambda>index w'. (beliefs X w' node index, C X (NthProb_bn node index) w'))
                [0..<length_c] (C X (GetNodeNumberStates_bn node) w1) of
           (bs, w2) \<Rightarrow>
             (case Errors w2 of
                (Some err, w3) \<Rightarrow> (Inl err, w3)
              | (None, w3) \<Rightarrow> (Inr bs, w3)))"

text \<open>
  The loop of \<open>Node.State\<close> over the belief list: \<open>index\<close> is the position of the head of
  the remaining list.
\<close>

fun State_loop :: "('v \<Rightarrow> 'v \<Rightarrow> bool) \<Rightarrow> 'v list \<Rightarrow> nat \<Rightarrow> nat \<Rightarrow> 'v \<Rightarrow> nat" where
  "State_loop gt [] index maxIndex maxBelief = maxIndex"
| "State_loop gt (belief # rest) index maxIndex maxBelief =
     (if gt belief maxBelief then State_loop gt rest (Suc index) index belief
      else State_loop gt rest (Suc index) maxIndex maxBelief)"

text \<open>\<open>beliefList[maxIndex]\<close> with \<open>maxIndex = 0\<close> panics on an empty list.\<close>

definition State :: "'v extern \<Rightarrow> node_bn \<Rightarrow> 'v netica \<Rightarrow> (failure + nat) \<times> 'v netica" where
  "State X node w =
     (case BeliefList X node w of
        (Inl err, w1) \<Rightarrow> (Inl (Error err), w1)
      | (Inr beliefList, w1) \<Rightarrow>
          (case beliefList of
             [] \<Rightarrow> (Inl (Panicked IndexOutOfRange), w1)
           | maxBelief # others \<Rightarrow>
               (Inr (State_loop (float_gt X) beliefList 0 0 maxBelief), w1)))"

definition undefined_expected_value :: string where
  "undefined_expected_value = ''In function Node.Value: undefined expected value''"

definition Value :: "'v extern \<Rightarrow> node_bn \<Rightarrow> 'v netica \<Rightarrow> (string + 'v \<times> 'v) \<times> 'v netica" where
  "Value X node w =
     (let cValue = fst (expected_value X w node);
          cStdDev = snd (expected_value X w node)
      in case Errors (C X (GetNodeExpectedValue_bn node) w) of
           (Some err, w1) \<Rightarrow> (Inl err, w1)
         | (None, w1) \<Rightarrow>
             if cValue = UndefDbl X then (Inl undefined_expected_value, w1)
             else (Inr (cValue, cStdDev), w1))"

definition Infer :: "'v extern \<Rightarrow> node_bn \<Rightarrow> 'v netica \<Rightarrow> (failure + string) \<times> 'v netica" where
  "Infer X node w =
     (case Value X node w of
        (Inr (v, stdDev), w1) \<Rightarrow> (Inr (FormatFloat X v), w1)
      | (Inl value_err, w1) \<Rightarrow>
          (case State X node w1 of
             (Inl err, w2) \<Rightarrow> (Inl err, w2)
           | (Inr index, w2) \<Rightarrow>
               (let name = state_name w2 node (state_bn (int index))
                in case Errors (C X (GetNodeStateName_bn node (state_bn (int index))) w2) of
                     (Some err, w3) \<Rightarrow> (Inl (Error err), w3)
                   | (None, w3) \<Rightarrow>
                       if name \<noteq> [] then (Inr name, w3)
                       else (Inr (''#'' @ Itoa (int index)), w3))))"


section \<open>network.go\<close>

text \<open>
  A \<open>Network\<close> is its \<open>*C.net_bn\<close>. A Go map that the code ranges over is a list of
  key-value pairs with distinct keys: \<open>m[k] = v\<close> is \<open>map_put\<close>, a lookup is \<open>map_of\<close>,
  and \<open>range\<close> visits the pairs in an order that the runtime chooses anew each time
  (\<open>range_order\<close>, of which only a rearrangement of the pairs is accepted).
\<close>

fun map_put :: "'k \<Rightarrow> 'a \<Rightarrow> ('k \<times> 'a) list \<Rightarrow> ('k \<times> 'a) list" where
  "map_put k v [] = [(k, v)]"
| "map_put k v (p # m) = (if fst p = k then (k, v) # m else p # map_put k v m)"

definition go_range ::
  "'v extern \<Rightarrow> 'v netica \<Rightarrow> (string \<times> node_bn) list \<Rightarrow> (string \<times> node_bn) list" where
  "go_range X w m = (let p = range_order X w m in if mset p = mset m then p else m)"

definition Network_Name :: "'v extern \<Rightarrow> net_bn \<Rightarrow> 'v netica \<Rightarrow> string \<times> 'v netica" where
  "Network_Name X net w = (net_name (desc w net), C X (GetNetName_bn net) w)"

definition Network_Title :: "'v extern \<Rightarrow> net_bn \<Rightarrow> 'v netica \<Rightarrow> string \<times> 'v netica" where
  "Network_Title X net w = (net_title (desc w net), C X (GetNetTitle_bn net) w)"

definition Network_Comment :: "'v extern \<Rightarrow> net_bn \<Rightarrow> 'v netica \<Rightarrow> string \<times> 'v netica" where
  "Network_Comment X net w = (net_comment (desc w net), C X (GetNetComment_bn net) w)"



definition NodeNamed ::
  "'v extern \<Rightarrow> net_bn \<Rightarrow> string \<Rightarrow> 'v netica \<Rightarrow> (string + node_bn) \<times> 'v netica" where
  "NodeNamed X net name w =
     (let w1 = C X (GetNodeNamed_bn name net) w
      in case node_named w name net of
           None \<Rightarrow>
             (case Network_Name X net w1 of
                (net_nm, w2) \<Rightarrow>
                  (Inl (''In function Network.NodeNamed: node '' @ name
                        @ '' not defined for network '' @ net_nm), w2))
         | Some cNode \<Rightarrow> (Inr cNode, w1))"

fun NodeMap_loop ::
  "'v extern \<Rightarrow> net_bn \<Rightarrow> nat list \<Rightarrow> (string \<times> node_bn) list \<Rightarrow> 'v netica
     \<Rightarrow> (string \<times> node_bn) list \<times> 'v netica" where
  "NodeMap_loop X net [] nodes w = (nodes, w)"
| "NodeMap_loop X net (index # rest) nodes w =
     (case Node_Name X (net, index) (C X (NthNode_bn net index) w) of
        (name, w1) \<Rightarrow> NodeMap_loop X net rest (map_put name (net, index) nodes) w1)"

text \<open>
  The loop of \<open>NodeMap\<close> runs from the last node of the list down to the first. The
  deferred \<open>DeleteNodeList_bn\<close> runs at the return, behind \<open>Errors\<close>.
\<close>

definition NodeMap ::
  "'v extern \<Rightarrow> net_bn \<Rightarrow> 'v netica \<Rightarrow> (string + (string \<times> node_bn) list) \<times> 'v netica" where
  "NodeMap X net w =
     (let w1 = C X (GetNetNodes2_bn net) w
      in case NodeMap_loop X net (rev [0..<length (net_nodes (desc w1 net))]) [] w1 of
           (nodes, w2) \<Rightarrow>
             (case Errors w2 of
                (Some err, w3) \<Rightarrow> (Inl err, C X (DeleteNodeList_bn net) w3)
              | (None, w3) \<Rightarrow> (Inr nodes, C X (DeleteNodeList_bn net) w3)))"

text \<open>
  \<open>NodeList\<close>: the names come from ranging over the map, are sorted by \<open>sort.Strings\<close>,
  and each is looked up in the map again.
\<close>

definition NodeList ::
  "'v extern \<Rightarrow> net_bn \<Rightarrow> 'v netica \<Rightarrow> (string + node_bn list) \<times> 'v netica" where
  "NodeList X net w =
     (case NodeMap X net w of
        (Inl err, w1) \<Rightarrow> (Inl err, w1)
      | (Inr nodeMap, w1) \<Rightarrow>
          (let names = sort (map fst (go_range X w1 nodeMap))
           in (Inr (List.map_filter (map_of nodeMap) names), w1)))"

definition ClearCases :: "'v extern \<Rightarrow> net_bn \<Rightarrow> 'v netica \<Rightarrow> string option \<times> 'v netica" where
  "ClearCases X net w = Errors (C X (RetractNetFindings_bn net) w)"

fun EnterCase_loop ::
  "'v extern \<Rightarrow> net_bn \<Rightarrow> (string \<rightharpoonup> string) \<Rightarrow> (string \<times> node_bn) list \<Rightarrow> 'v netica
     \<Rightarrow> string option \<times> 'v netica" where
  "EnterCase_loop X net caseMap [] w = (None, w)"
| "EnterCase_loop X net caseMap ((name, node) # rest) w =
     (case caseMap name of
        None \<Rightarrow> EnterCase_loop X net caseMap rest w
      | Some evidence \<Rightarrow>
          (case EnterFinding X node evidence w of
             (Some err, w1) \<Rightarrow> (case ClearCases X net w1 of (ignored, w2) \<Rightarrow> (Some err, w2))
           | (None, w1) \<Rightarrow> EnterCase_loop X net caseMap rest w1))"

definition EnterCase ::
  "'v extern \<Rightarrow> net_bn \<Rightarrow> (string \<rightharpoonup> string) \<Rightarrow> 'v netica \<Rightarrow> string option \<times> 'v netica" where
  "EnterCase X net caseMap w =
     (case NodeMap X net w of
        (Inl err, w1) \<Rightarrow> (Some err, w1)
      | (Inr nodeMap, w1) \<Rightarrow> EnterCase_loop X net caseMap (go_range X w1 nodeMap) w1)"

text \<open>
  \<open>Lock\<close> and \<open>Unlock\<close> look the mutex up in \<open>netlocks\<close>; a network without an entry
  yields a nil mutex. \<open>sync.RWMutex.Lock\<close> returns with the mutex held when it was free and
  waits while it is held; \<open>Unlock\<close> of a mutex that is not held is a fatal error of the
  run time.
\<close>

definition Lock :: "net_bn \<Rightarrow> 'v netica \<Rightarrow> stop + 'v netica" where
  "Lock net w =
     (case netlocks w net of
        None \<Rightarrow> Inl NilDereference
      | Some held \<Rightarrow>
          if held then Inl Blocked
          else Inr (w\<lparr>netlocks := (netlocks w)(net \<mapsto> True)\<rparr>))"

definition Unlock :: "net_bn \<Rightarrow> 'v netica \<Rightarrow> stop + 'v netica" where
  "Unlock net w =
     (case netlocks w net of
        None \<Rightarrow> Inl NilDereference
      | Some held \<Rightarrow>
          if held
          then Inr (w\<lparr>netlocks := (netlocks w)(net \<mapsto> False),
                      released := released w @ [(net, finds w net)]\<rparr>)
          else Inl UnlockOfUnlockedMutex)"


text \<open>
  \<open>Environment.NetworkList\<close> (environment.go): \<open>GetNthNet_bn\<close> is called in the loop
  condition and again in the body, until it returns nil.
\<close>

definition nth_net :: "'v netica \<Rightarrow> nat \<Rightarrow> net_bn option" where
  "nth_net w index = (if index < length (live w) then Some (live w ! index) else None)"

function NetworkList_loop ::
  "'v extern \<Rightarrow> nat \<Rightarrow> net_bn list \<Rightarrow> 'v netica \<Rightarrow> net_bn list \<times> 'v netica" where
  "NetworkList_loop X index networks w =
     (case nth_net w index of
        None \<Rightarrow> (networks, C X (GetNthNet_bn index) w)
      | Some tested \<Rightarrow>
          (case nth_net (C X (GetNthNet_bn index) w) index of
             None \<Rightarrow> (networks, C X (GetNthNet_bn index) (C X (GetNthNet_bn index) w))
           | Some net \<Rightarrow>
               NetworkList_loop X (Suc index) (networks @ [net])
                 (C X (GetNthNet_bn index) (C X (GetNthNet_bn index) w))))"
  by pat_completeness auto
termination
  by (relation "measure (\<lambda>(X, index, networks, w). length (live w) - index)")
     (auto simp: nth_net_def C_def split: if_splits)

declare NetworkList_loop.simps [simp del]

definition NetworkList :: "'v extern \<Rightarrow> 'v netica \<Rightarrow> (string + net_bn list) \<times> 'v netica" where
  "NetworkList X w =
     (case NetworkList_loop X 0 [] w of
        (networks, w1) \<Rightarrow>
          (case Errors w1 of
             (Some err, w2) \<Rightarrow> (Inl err, w2)
           | (None, w2) \<Rightarrow> (Inr networks, w2)))"

section \<open>gncli/cmd/serve.go\<close>

definition Println :: "string \<Rightarrow> 'v netica \<Rightarrow> 'v netica" where
  "Println msg w = w\<lparr>logged := logged w @ [msg]\<rparr>"


definition already_loaded :: "string \<Rightarrow> string \<Rightarrow> string" where
  "already_loaded name relPath =
     ''In function serve: network named '' @ name @ '' already loaded from path '' @ relPath"




section \<open>gncli/cmd/serveJSON.go\<close>

record 'v nodeJSON =
  nodeIndex :: nat
  nodeName :: string
  nodeTitle :: string
  nodeComment :: string
  nodeStates :: "string list"
  nodeLevels :: "'v list"

record 'v netJSON =
  netIndex :: nat
  netName :: string
  netTitle :: string
  netComment :: string
  netNodes :: "'v nodeJSON list"

record caseJSON =
  caseID :: string
  Cases :: "(string \<rightharpoonup> string) list"

record singleJSON =
  resIndex :: nat
  resError :: string
  resValue :: string

record batchJSON =
  batchID :: string
  Results :: "singleJSON list"

datatype 'v json =
    JNets "'v netJSON list"
  | JNet "'v netJSON"
  | JNodes "'v nodeJSON list"
  | JNode "'v nodeJSON"
  | JBatch batchJSON

datatype 'v response = NotFound | InternalServerError string | WriteJson "'v json"

text \<open>
  The inner loop of \<open>buildJSON\<close> over the nodes of one network: an error of
  \<open>StateNameList\<close> or \<open>LevelList\<close> breaks out of it with the nodes built so far. The
  \<open>err\<close> it sets is declared inside the loop, so the test that follows the loop reads the
  \<open>err\<close> of \<open>NodeList\<close>, which is nil there: the network is kept.
\<close>

fun buildJSON_nodes ::
  "'v extern \<Rightarrow> node_bn list \<Rightarrow> nat \<Rightarrow> 'v nodeJSON list \<Rightarrow> 'v netica
     \<Rightarrow> 'v nodeJSON list \<times> 'v netica" where
  "buildJSON_nodes X [] index nodes w = (nodes, w)"
| "buildJSON_nodes X (node # rest) index nodes w =
     (case Node_Name X node w of (name, w1) \<Rightarrow>
      (case Node_Title X node w1 of (title, w2) \<Rightarrow>
       (case Node_Comment X node w2 of (comment, w3) \<Rightarrow>
        (case StateNameList X node w3 of
           (Inl err, w4) \<Rightarrow> (nodes, w4)
         | (Inr names, w4) \<Rightarrow>
             (case LevelList X node w4 of
                (Inl err, w5) \<Rightarrow> (nodes, w5)
              | (Inr levels, w5) \<Rightarrow>
                  buildJSON_nodes X rest (Suc index)
                    (nodes @ [\<lparr>nodeIndex = index, nodeName = name, nodeTitle = title,
                                nodeComment = comment, nodeStates = names,
                                nodeLevels = levels\<rparr>]) w5)))))"

fun buildJSON_loop ::
  "'v extern \<Rightarrow> net_bn list \<Rightarrow> nat \<Rightarrow> 'v netJSON list \<Rightarrow> (string \<rightharpoonup> 'v netJSON) \<Rightarrow> 'v netica
     \<Rightarrow> ('v netJSON list \<times> (string \<rightharpoonup> 'v netJSON)) \<times> 'v netica" where
  "buildJSON_loop X [] index list nets w = ((list, nets), w)"
| "buildJSON_loop X (net # rest) index list nets w =
     (case Network_Name X net w of (name, w1) \<Rightarrow>
      (case Network_Title X net w1 of (title, w2) \<Rightarrow>
       (case Network_Comment X net w2 of (comment, w3) \<Rightarrow>
        (let netRepr = \<lparr>netIndex = index, netName = name, netTitle = title,
                         netComment = comment, netNodes = []\<rparr>
         in case NodeList X net w3 of
              (Inl err, w4) \<Rightarrow> buildJSON_loop X rest (Suc index) list nets (Println err w4)
            | (Inr nodeList, w4) \<Rightarrow>
                (case buildJSON_nodes X nodeList 0 [] w4 of
                   (nodes, w5) \<Rightarrow>
                     (let modRepr = netRepr\<lparr>netNodes := nodes\<rparr>
                      in buildJSON_loop X rest (Suc index) (list @ [netRepr])
                           (nets(netName modRepr \<mapsto> modRepr, Itoa (int index) \<mapsto> modRepr))
                           w5))))))"

definition buildJSON ::
  "'v extern \<Rightarrow> net_bn list \<Rightarrow> 'v netica
     \<Rightarrow> ('v netJSON list \<times> (string \<rightharpoonup> 'v netJSON)) \<times> 'v netica" where
  "buildJSON X netList w = buildJSON_loop X netList 0 [] Map.empty w"

definition getNets :: "'v netJSON list \<Rightarrow> 'v response" where
  "getNets netJSONList = WriteJson (JNets netJSONList)"

definition getNet :: "(string \<rightharpoonup> 'v netJSON) \<Rightarrow> string \<Rightarrow> 'v response" where
  "getNet netsJSON netID =
     (case netsJSON netID of Some repr \<Rightarrow> WriteJson (JNet repr) | None \<Rightarrow> NotFound)"

definition getNetNodes :: "(string \<rightharpoonup> 'v netJSON) \<Rightarrow> string \<Rightarrow> 'v response" where
  "getNetNodes netsJSON netID =
     (case netsJSON netID of Some repr \<Rightarrow> WriteJson (JNodes (netNodes repr)) | None \<Rightarrow> NotFound)"

fun getNetNode_loop :: "string \<Rightarrow> 'v nodeJSON list \<Rightarrow> nat \<Rightarrow> 'v response" where
  "getNetNode_loop nodeID [] index = NotFound"
| "getNetNode_loop nodeID (node # rest) index =
     (if Itoa (int index) = nodeID \<or> nodeName node = nodeID then WriteJson (JNode node)
      else getNetNode_loop nodeID rest (Suc index))"

definition getNetNode :: "(string \<rightharpoonup> 'v netJSON) \<Rightarrow> string \<Rightarrow> string \<Rightarrow> 'v response" where
  "getNetNode netsJSON netID nodeID =
     (case netsJSON netID of
        Some repr \<Rightarrow> getNetNode_loop nodeID (netNodes repr) 0
      | None \<Rightarrow> NotFound)"

text \<open>
  One round of the loop of \<open>postNetNode\<close> over the cases: the result appended to the
  batch, or the panic that ends the handler.
\<close>

definition postNetNode_case ::
  "'v extern \<Rightarrow> net_bn \<Rightarrow> node_bn \<Rightarrow> nat \<Rightarrow> (string \<rightharpoonup> string) \<Rightarrow> 'v netica
     \<Rightarrow> (stop + singleJSON) \<times> 'v netica" where
  "postNetNode_case X net node index evidence w =
     (case Lock net w of
        Inl p \<Rightarrow> (Inl p, w)
      | Inr w1 \<Rightarrow>
          (case EnterCase X net evidence w1 of
             (Some err, w2) \<Rightarrow>
               (case Unlock net w2 of
                  Inl p \<Rightarrow> (Inl p, w2)
                | Inr w3 \<Rightarrow>
                    (Inr \<lparr>resIndex = index, resError = err, resValue = []\<rparr>, Println err w3))
           | (None, w2) \<Rightarrow>
               (case Infer X node w2 of
                  (Inl (Panicked p), w3) \<Rightarrow> (Inl p, w3)
                | (Inl (Error err), w3) \<Rightarrow>
                    (case ClearCases X net w3 of
                       (ignored, w4) \<Rightarrow>
                         (case Unlock net w4 of
                            Inl p \<Rightarrow> (Inl p, w4)
                          | Inr w5 \<Rightarrow>
                              (Inr \<lparr>resIndex = index, resError = err, resValue = []\<rparr>,
                               Println err w5)))
                | (Inr result, w3) \<Rightarrow>
                    (case ClearCases X net w3 of
                       (ignored, w4) \<Rightarrow>
                         (case Unlock net w4 of
                            Inl p \<Rightarrow> (Inl p, w4)
                          | Inr w5 \<Rightarrow>
                              (Inr \<lparr>resIndex = index, resError = [], resValue = result\<rparr>,
                               w5))))))"

fun postNetNode_loop ::
  "'v extern \<Rightarrow> net_bn \<Rightarrow> node_bn \<Rightarrow> nat \<Rightarrow> (string \<rightharpoonup> string) list \<Rightarrow> singleJSON list
     \<Rightarrow> 'v netica \<Rightarrow> (stop + singleJSON list) \<times> 'v netica" where
  "postNetNode_loop X net node index [] results w = (Inr results, w)"
| "postNetNode_loop X net node index (evidence # rest) results w =
     (case postNetNode_case X net node index evidence w of
        (Inl p, w1) \<Rightarrow> (Inl p, w1)
      | (Inr single, w1) \<Rightarrow>
          postNetNode_loop X net node (Suc index) rest (results @ [single]) w1)"

text \<open>The handler behind the lookup of the node: the payload, as decoded, and the batch.\<close>

definition postNetNode_batch ::
  "'v extern \<Rightarrow> net_bn \<Rightarrow> node_bn \<Rightarrow> string + caseJSON \<Rightarrow> 'v netica
     \<Rightarrow> (stop + 'v response) \<times> 'v netica" where
  "postNetNode_batch X net node payload w =
     (case payload of
        Inl err \<Rightarrow> (Inr (InternalServerError err), w)
      | Inr infer \<Rightarrow>
          (case postNetNode_loop X net node 0 (Cases infer) [] w of
             (Inl p, w1) \<Rightarrow> (Inl p, w1)
           | (Inr results, w1) \<Rightarrow>
               (Inr (WriteJson (JBatch \<lparr>batchID = caseID infer, Results = results\<rparr>)), w1)))"

text \<open>
  \<open>postNetNode\<close>. \<open>netLookup[netID]\<close> is nil for a key that the map lacks, and
  \<open>repr.Nodes[index]\<close> panics for an index that is not a position of the list.
\<close>

definition postNetNode ::
  "'v extern \<Rightarrow> (string \<rightharpoonup> 'v netJSON) \<Rightarrow> (string \<rightharpoonup> net_bn) \<Rightarrow> string \<Rightarrow> string
     \<Rightarrow> string + caseJSON \<Rightarrow> 'v netica \<Rightarrow> (stop + 'v response) \<times> 'v netica" where
  "postNetNode X netsJSON netLookup netID nodeID payload w =
     (case netsJSON netID of
        None \<Rightarrow> (Inr NotFound, w)
      | Some repr \<Rightarrow>
          (case netLookup netID of
             None \<Rightarrow> (Inl NilDereference, w)
           | Some net \<Rightarrow>
               (case NodeNamed X net nodeID w of
                  (Inr node, w1) \<Rightarrow> postNetNode_batch X net node payload w1
                | (Inl err, w1) \<Rightarrow>
                    (case Atoi nodeID of
                       None \<Rightarrow> (Inr NotFound, w1)
                     | Some index \<Rightarrow>
                         if 0 \<le> index \<and> nat index < length (netNodes repr)
                         then (case NodeNamed X net (nodeName (netNodes repr ! nat index)) w1 of
                                 (Inl err2, w2) \<Rightarrow> (Inr NotFound, w2)
                               | (Inr node, w2) \<Rightarrow> postNetNode_batch X net node payload w2)
                         else (Inl IndexOutOfRange, w1)))))"

section \<open>Notions used in the proofs\<close>

text \<open>
  \<open>frame w w'\<close>: from \<open>w\<close> to \<open>w'\<close> nothing changed but the pending errors and the findings.
  \<open>quiet w w'\<close>: nothing changed but the pending errors. \<open>query c\<close>: the call \<open>c\<close> reads
  the engine only.
\<close>

definition frame :: "'v netica \<Rightarrow> 'v netica \<Rightarrow> bool" where
  "frame w w' \<longleftrightarrow>
     live w' = live w \<and> next_net w' = next_net w \<and> desc w' = desc w \<and>
     netlocks w' = netlocks w \<and> logged w' = logged w \<and> released w' = released w"

definition query :: "'v call \<Rightarrow> bool" where
  "query c = (case c of
      EnterFinding_bn n s \<Rightarrow> False | EnterNodeValue_bn n v \<Rightarrow> False
    | RetractNodeFindings_bn n \<Rightarrow> False | RetractNetFindings_bn n \<Rightarrow> False
    | ReadNet_bn b \<Rightarrow> False | DeleteNet_bn n \<Rightarrow> False | _ \<Rightarrow> True)"

definition quiet :: "'v netica \<Rightarrow> 'v netica \<Rightarrow> bool" where
  "quiet w w' \<longleftrightarrow> frame w w' \<and> finds w' = finds w"

section \<open>A small engine and network for concrete instances\<close>

text \<open>
  One network \<open>Dam\<close> with the nodes \<open>Level\<close> (states Low, Medium, High), \<open>Code\<close>
  (states 41 and 42), \<open>Flow\<close> (continuous, without states) and \<open>Gate\<close> (three states, the
  second unnamed). Whole numbers stand for \<open>float64\<close>. The engine refuses a state
  outside a node's states, reports nothing else, stores what is entered, has the beliefs
  0.2, 0.5, 0.3 (in tenths) and no expected value. A file holds the name of the network
  it declares: \<open>Creek\<close> for \<open>nets/c.dne\<close> and \<open>Dam\<close> for every other file.
\<close>

definition demo_nodes :: "int node_desc list" where
  "demo_nodes =
     [\<lparr>node_name = ''Level'', node_title = ''Water level'', node_comment = [],
       node_continuous = False, node_states = [''Low'', ''Medium'', ''High''],
       node_levels = None\<rparr>,
      \<lparr>node_name = ''Code'', node_title = ''Alarm code'', node_comment = [],
       node_continuous = False, node_states = [''41'', ''42''],
       node_levels = None\<rparr>,
      \<lparr>node_name = ''Flow'', node_title = ''Inflow'', node_comment = [],
       node_continuous = True, node_states = [],
       node_levels = None\<rparr>,
      \<lparr>node_name = ''Gate'', node_title = ''Sluice gate'', node_comment = [],
       node_continuous = False, node_states = [''open'', [], ''shut''],
       node_levels = None\<rparr>]"

definition demo_net :: "int net_desc" where
  "demo_net = \<lparr>net_name = ''Dam'', net_title = ''Dam control'', net_comment = [],
               net_nodes = demo_nodes\<rparr>"

definition demo_world :: "int netica" where
  "demo_world =
     \<lparr>errq = [], live = [0], next_net = 1, desc = (\<lambda>net. demo_net),
      finds = (\<lambda>net. Map.empty), netlocks = [0 \<mapsto> False], logged = [], released = []\<rparr>"

definition demo_reports :: "int call \<Rightarrow> int netica \<Rightarrow> report list" where
  "demo_reports c w =
     (case c of
        EnterFinding_bn node state \<Rightarrow>
          if 0 \<le> state \<and> nat state < number_states w node then []
          else [(1, ''state out of range'')]
      | _ \<Rightarrow> [])"

definition demo_extern :: "int extern" where
  "demo_extern =
     \<lparr>ParseFloat = Atoi, FormatFloat = Itoa, float_gt = (\<lambda>a b. b < a),
      range_order = (\<lambda>w m. m), os_Open = (\<lambda>path. None),
      ReadAll = (\<lambda>path. Inr (if path = ''nets/c.dne'' then ''Creek'' else ''Dam'')),
      Clean = (\<lambda>dir. dir), Rel = (\<lambda>root path. path),
      reports = demo_reports,
      entered = (\<lambda>w node f. Some f),
      beliefs = (\<lambda>w node index. if index < 3 then [2, 5, 3] ! index else 0),
      expected_value = (\<lambda>w node. (- 1, 0)),
      UndefDbl = - 1,
      parsed_net = (\<lambda>bytes. demo_net\<lparr>net_name := bytes\<rparr>)\<rparr>"

text \<open>
  Variants: a network that already holds a finding on \<open>Level\<close>; an engine whose
  expected-value query reports an error; one whose belief query reports an error; one
  with a defined expected value.
\<close>

definition demo_found :: "int netica" where
  "demo_found = demo_world\<lparr>finds := (\<lambda>net. Map.empty)(0 := [0 \<mapsto> StateFinding 2])\<rparr>"

definition value_fails :: "int extern" where
  "value_fails =
     demo_extern\<lparr>reports :=
       (\<lambda>c w. case c of
                 GetNodeExpectedValue_bn node \<Rightarrow> [(3, ''no expected value'')]
               | _ \<Rightarrow> demo_reports c w)\<rparr>"

definition beliefs_fail :: "int extern" where
  "beliefs_fail =
     demo_extern\<lparr>reports :=
       (\<lambda>c w. case c of
                 GetNodeBeliefs_bn node \<Rightarrow> [(4, ''inconsistent findings'')]
               | _ \<Rightarrow> demo_reports c w)\<rparr>"

definition value_defined :: "int extern" where
  "value_defined = demo_extern\<lparr>expected_value := (\<lambda>w node. (7, 1))\<rparr>"

definition demo_nodeMap :: "(string \<times> node_bn) list" where
  "demo_nodeMap = [(''Gate'', (0, 3)), (''Flow'', (0, 2)), (''Code'', (0, 1)), (''Level'', (0, 0))]"

text \<open>
  The registry and the JSON representation of the network \<open>Dam\<close> (its nodes in the order
  of their names), and a payload of two cases for the target node \<open>Level\<close>: the first has
  a token that names no state, the second is in order.
\<close>

definition demo_netJSON :: "int netJSON" where
  "demo_netJSON =
     \<lparr>netIndex = 0, netName = ''Dam'', netTitle = ''Dam control'', netComment = [],
      netNodes =
        [\<lparr>nodeIndex = 0, nodeName = ''Code'', nodeTitle = ''Alarm code'', nodeComment = [],
          nodeStates = [''41'', ''42''], nodeLevels = []\<rparr>,
         \<lparr>nodeIndex = 1, nodeName = ''Flow'', nodeTitle = ''Inflow'', nodeComment = [],
          nodeStates = [], nodeLevels = []\<rparr>,
         \<lparr>nodeIndex = 2, nodeName = ''Gate'', nodeTitle = ''Sluice gate'', nodeComment = [],
          nodeStates = [''open'', [], ''shut''], nodeLevels = []\<rparr>,
         \<lparr>nodeIndex = 3, nodeName = ''Level'', nodeTitle = ''Water level'', nodeComment = [],
          nodeStates = [''Low'', ''Medium'', ''High''], nodeLevels = []\<rparr>]\<rparr>"

definition demo_netsJSON :: "string \<rightharpoonup> int netJSON" where
  "demo_netsJSON = [''Dam'' \<mapsto> demo_netJSON, ''0'' \<mapsto> demo_netJSON]"

definition demo_netLookup :: "string \<rightharpoonup> net_bn" where
  "demo_netLookup = [''Dam'' \<mapsto> 0, ''0'' \<mapsto> 0]"

definition demo_payload :: caseJSON where
  "demo_payload =
     \<lparr>caseID = ''batch-1'', Cases = [[''Code'' \<mapsto> ''bogus''], [''Gate'' \<mapsto> ''open'']]\<rparr>"

definition demo_like :: "int netica \<Rightarrow> bool" where
  "demo_like w \<longleftrightarrow> desc w = (\<lambda>net. demo_net) \<and> errq w = []"




definition demo_two :: "int netica" where
  "demo_two =
     \<lparr>errq = [], live = [0, 2], next_net = 3,
      desc = (\<lambda>net. demo_net)(2 := demo_net\<lparr>net_name := ''Creek''\<rparr>),
      finds = (\<lambda>net. Map.empty), netlocks = [0 \<mapsto> False, 2 \<mapsto> False],
      logged = [already_loaded ''Dam'' ''nets/b.neta''], released = []\<rparr>"






section \<open>Proofs: the engine calls and what the methods leave unchanged\<close>

lemma Errors_loop_eq:
  "Errors_loop w ms = (ms @ map report_message (errq w), w\<lparr>errq := []\<rparr>)"
proof (induction w ms rule: Errors_loop.induct)
  case (1 w messages)
  show ?case
  proof (cases "errq w")
    case Nil
    then show ?thesis by (simp add: Errors_loop.simps [of w] GetError_ns_def)
  next
    case (Cons r rs)
    then have g: "GetError_ns w = Some r" by (simp add: GetError_ns_def)
    from "1" [OF g] Cons show ?thesis
      by (simp add: Errors_loop.simps [of w] g ClearError_ns_def)
  qed
qed

lemma Errors_eq:
  "Errors w = (if errq w = [] then None else Some (Join (map report_message (errq w)) [CHR 0x0A]),
               w\<lparr>errq := []\<rparr>)"
  by (simp add: Errors_def Errors_loop_eq)

lemma frame_refl [simp]: "frame w w"
  by (simp add: frame_def)

lemma frame_trans: "frame w w1 \<Longrightarrow> frame w1 w2 \<Longrightarrow> frame w w2"
  by (simp add: frame_def)

lemma frame_Errors: "Errors w = (e, w') \<Longrightarrow> frame w w' \<and> finds w' = finds w"
  by (auto simp: Errors_eq frame_def)

lemma effect_query: "query c \<Longrightarrow> effect X c w = w"
  by (cases c) (simp_all add: query_def)

lemma C_query: "query c \<Longrightarrow> C X c w = w\<lparr>errq := errq w @ reports X c w\<rparr>"
  by (simp add: C_def effect_query)

lemma frame_C_query: "query c \<Longrightarrow> frame w (C X c w) \<and> finds (C X c w) = finds w"
  by (simp add: C_query frame_def)

lemma frame_C_finding:
  "frame w (C X (EnterFinding_bn n s) w)"
  "frame w (C X (EnterNodeValue_bn n v) w)"
  "frame w (C X (RetractNodeFindings_bn n) w)"
  "frame w (C X (RetractNetFindings_bn net) w)"
  by (simp_all add: C_def frame_def set_finding_def)

lemma frame_for_collect:
  assumes "\<And>i u x u'. body i u = (x, u') \<Longrightarrow> frame u u' \<and> finds u' = finds u"
  shows "for_collect body is w = (xs, w') \<Longrightarrow> frame w w' \<and> finds w' = finds w"
proof (induction "is" arbitrary: w xs w')
  case Nil
  then show ?case by simp
next
  case (Cons i "is")
  obtain x w1 where b: "body i w = (x, w1)" by (cases "body i w")
  obtain ys w2 where r: "for_collect body is w1 = (ys, w2)" by (cases "for_collect body is w1")
  from Cons.prems b r have "w' = w2" by simp
  with assms [OF b] Cons.IH [OF r] show ?case by (auto intro: frame_trans)
qed

lemma quiet_refl [simp]: "quiet w w"
  by (simp add: quiet_def)

lemma quiet_trans: "quiet w w1 \<Longrightarrow> quiet w1 w2 \<Longrightarrow> quiet w w2"
  by (simp add: quiet_def frame_def)

lemma quiet_frame: "quiet w w' \<Longrightarrow> frame w w'"
  by (simp add: quiet_def)

lemma quiet_Errors: "Errors w = (e, w') \<Longrightarrow> quiet w w'"
  by (simp add: quiet_def frame_Errors)

lemma quiet_C: "query c \<Longrightarrow> quiet w (C X c w)"
  by (simp add: quiet_def frame_C_query)

lemma quiet_for_collect:
  assumes "\<And>i u x u'. body i u = (x, u') \<Longrightarrow> quiet u u'"
  shows "for_collect body is w = (xs, w') \<Longrightarrow> quiet w w'"
  using frame_for_collect [of body "is" w xs w'] assms by (simp add: quiet_def)

lemma quiet_Node_Name: "Node_Name X node w = (s, w') \<Longrightarrow> quiet w w'"
  by (auto simp: Node_Name_def query_def intro!: quiet_C)

lemma quiet_Node_Title: "Node_Title X node w = (s, w') \<Longrightarrow> quiet w w'"
  by (auto simp: Node_Title_def query_def intro!: quiet_C)

lemma quiet_Node_Comment: "Node_Comment X node w = (s, w') \<Longrightarrow> quiet w w'"
  by (auto simp: Node_Comment_def query_def intro!: quiet_C)

lemma quiet_IsContinuousType: "IsContinuousType X node w = (s, w') \<Longrightarrow> quiet w w'"
  by (auto simp: IsContinuousType_def query_def intro!: quiet_C)

lemma quiet_Network_Name: "Network_Name X net w = (s, w') \<Longrightarrow> quiet w w'"
  by (auto simp: Network_Name_def query_def intro!: quiet_C)

lemma quiet_Network_Title: "Network_Title X net w = (s, w') \<Longrightarrow> quiet w w'"
  by (auto simp: Network_Title_def query_def intro!: quiet_C)

lemma quiet_Network_Comment: "Network_Comment X net w = (s, w') \<Longrightarrow> quiet w w'"
  by (auto simp: Network_Comment_def query_def intro!: quiet_C)

lemma quiet_StateNamed: "StateNamed X node name w = (r, w') \<Longrightarrow> quiet w w'"
proof -
  assume a: "StateNamed X node name w = (r, w')"
  have c: "quiet w (C X (GetStateNamed_bn name node) w)"
    by (rule quiet_C) (simp add: query_def)
  obtain e w1 where e: "Errors (C X (GetStateNamed_bn name node) w) = (e, w1)"
    by (cases "Errors (C X (GetStateNamed_bn name node) w)")
  have q1: "quiet w w1" using c quiet_Errors [OF e] by (rule quiet_trans)
  obtain nm w2 where n: "Node_Name X node w1 = (nm, w2)" by (cases "Node_Name X node w1")
  have q2: "quiet w w2" using q1 quiet_Node_Name [OF n] by (rule quiet_trans)
  from a e n q1 q2 show ?thesis
    by (auto simp: StateNamed_def Let_def split: option.splits if_splits)
qed

lemma quiet_StateNameList: "StateNameList X node w = (r, w') \<Longrightarrow> quiet w w'"
proof -
  assume a: "StateNameList X node w = (r, w')"
  let ?body = "\<lambda>index w'. (state_name w' node (state_bn (int index)),
                              C X (GetNodeStateName_bn node (state_bn (int index))) w')"
  let ?w0 = "C X (GetNodeNumberStates_bn node) w"
  have c: "quiet w ?w0" by (rule quiet_C) (simp add: query_def)
  obtain xs w1 where f: "for_collect ?body [0..<number_states w node] ?w0 = (xs, w1)"
    by (cases "for_collect ?body [0..<number_states w node] ?w0")
  have "quiet ?w0 w1"
    by (rule quiet_for_collect [OF _ f]) (auto simp: query_def intro!: quiet_C)
  with c have q1: "quiet w w1" by (rule quiet_trans)
  obtain e w2 where e: "Errors w1 = (e, w2)" by (cases "Errors w1")
  have "quiet w w2" using q1 quiet_Errors [OF e] by (rule quiet_trans)
  with a f e show ?thesis
    by (auto simp: StateNameList_def Let_def split: option.splits)
qed

lemma quietD:
  "quiet w w' \<Longrightarrow>
     live w' = live w \<and> next_net w' = next_net w \<and> desc w' = desc w \<and>
     netlocks w' = netlocks w \<and> logged w' = logged w \<and> released w' = released w \<and>
     finds w' = finds w"
  by (simp add: quiet_def frame_def)

lemma quietI:
  "live w' = live w \<Longrightarrow> next_net w' = next_net w \<Longrightarrow> desc w' = desc w \<Longrightarrow>
     netlocks w' = netlocks w \<Longrightarrow> logged w' = logged w \<Longrightarrow> released w' = released w \<Longrightarrow>
     finds w' = finds w \<Longrightarrow> quiet w w'"
  by (simp add: quiet_def frame_def)

lemma quiet_for_collect_C:
  assumes "\<And>i. query (c i)"
  shows "for_collect (\<lambda>index u. (g index u, C X (c index) u)) is w = (xs, w') \<Longrightarrow> quiet w w'"
  by (rule quiet_for_collect [where body = "\<lambda>index u. (g index u, C X (c index) u)"])
     (auto intro!: quiet_C assms)

lemma quiet_LevelList: "LevelList X node w = (r, w') \<Longrightarrow> quiet w w'"
proof -
  assume a: "LevelList X node w = (r, w')"
  let ?w1 = "C X (GetNodeLevels_bn node) w"
  have q1: "quiet w ?w1" by (rule quiet_C) (simp add: query_def)
  show ?thesis
  proof (cases "case the_node w node of None \<Rightarrow> None | Some d \<Rightarrow> node_levels d")
    case None
    with a q1 show ?thesis by (simp add: LevelList_def Let_def)
  next
    case (Some cLevels)
    let ?w1' = "C X (GetNodeNumberStates_bn node) ?w1"
    have q1': "quiet w ?w1'"
      by (rule quiet_trans [OF q1]) (rule quiet_C, simp add: query_def)
    obtain continuous w2 where i: "IsContinuousType X node ?w1' = (continuous, w2)"
      by (cases "IsContinuousType X node ?w1'")
    have q2: "quiet w w2" using q1' quiet_IsContinuousType [OF i] by (rule quiet_trans)
    let ?n = "if continuous then Suc (number_states ?w1 node) else number_states ?w1 node"
    obtain levels w3 where
      f: "for_collect (\<lambda>index u. (cLevels index, C X (NthLevel_bn node index) u)) [0..<?n] w2
            = (levels, w3)"
      by (cases "for_collect (\<lambda>index u. (cLevels index, C X (NthLevel_bn node index) u)) [0..<?n] w2")
    have "quiet w2 w3"
      by (rule quiet_for_collect_C [OF _ f]) (simp add: query_def)
    with q2 have q3: "quiet w w3" by (rule quiet_trans)
    obtain e w4 where e: "Errors w3 = (e, w4)" by (cases "Errors w3")
    have "quiet w w4" using q3 quiet_Errors [OF e] by (rule quiet_trans)
    with a Some i f e show ?thesis
      by (auto simp: LevelList_def Let_def split: option.splits)
  qed
qed

lemma quiet_BeliefList: "BeliefList X node w = (r, w') \<Longrightarrow> quiet w w'"
proof -
  assume a: "BeliefList X node w = (r, w')"
  let ?w1 = "C X (GetNodeBeliefs_bn node) w"
  let ?w1' = "C X (GetNodeNumberStates_bn node) ?w1"
  have q1: "quiet w ?w1'"
    by (rule quiet_trans [where ?w1.0 = ?w1]) (rule quiet_C, simp add: query_def)+
  obtain bs w2 where
    f: "for_collect (\<lambda>index u. (beliefs X u node index, C X (NthProb_bn node index) u))
          [0..<number_states ?w1 node] ?w1' = (bs, w2)"
    by (cases "for_collect (\<lambda>index u. (beliefs X u node index, C X (NthProb_bn node index) u))
          [0..<number_states ?w1 node] ?w1'")
  have "quiet ?w1' w2"
    by (rule quiet_for_collect_C [OF _ f]) (simp add: query_def)
  with q1 have q2: "quiet w w2" by (rule quiet_trans)
  obtain e w3 where e: "Errors w2 = (e, w3)" by (cases "Errors w2")
  have "quiet w w3" using q2 quiet_Errors [OF e] by (rule quiet_trans)
  with a f e show ?thesis
    by (auto simp: BeliefList_def Let_def split: option.splits)
qed

lemma quiet_State: "State X node w = (r, w') \<Longrightarrow> quiet w w'"
  by (auto simp: State_def split: prod.splits sum.splits list.splits dest: quiet_BeliefList)

lemma quiet_Value: "Value X node w = (r, w') \<Longrightarrow> quiet w w'"
proof -
  assume a: "Value X node w = (r, w')"
  have c: "quiet w (C X (GetNodeExpectedValue_bn node) w)"
    by (rule quiet_C) (simp add: query_def)
  obtain e w1 where e: "Errors (C X (GetNodeExpectedValue_bn node) w) = (e, w1)"
    by (cases "Errors (C X (GetNodeExpectedValue_bn node) w)")
  have "quiet w w1" using c quiet_Errors [OF e] by (rule quiet_trans)
  with a e show ?thesis
    by (auto simp: Value_def Let_def split: option.splits if_splits)
qed

lemma quiet_Infer: "Infer X node w = (r, w') \<Longrightarrow> quiet w w'"
proof -
  assume a: "Infer X node w = (r, w')"
  obtain rv w1 where v: "Value X node w = (rv, w1)" by (cases "Value X node w")
  note q1 = quiet_Value [OF v]
  obtain rs w2 where s: "State X node w1 = (rs, w2)" by (cases "State X node w1")
  have q2: "quiet w w2" using q1 quiet_State [OF s] by (rule quiet_trans)
  show ?thesis
  proof (cases rv)
    case (Inr p)
    with a v q1 show ?thesis by (auto simp: Infer_def split: prod.splits)
  next
    case (Inl value_err)
    show ?thesis
    proof (cases rs)
      case (Inl err)
      with a v s q2 \<open>rv = Inl value_err\<close> show ?thesis by (simp add: Infer_def)
    next
      case (Inr index)
      let ?w2 = "C X (GetNodeStateName_bn node (state_bn (int index))) w2"
      have "quiet w2 ?w2" by (rule quiet_C) (simp add: query_def)
      with q2 have q2': "quiet w ?w2" by (rule quiet_trans)
      obtain e w3 where e: "Errors ?w2 = (e, w3)" by (cases "Errors ?w2")
      have "quiet w w3" using q2' quiet_Errors [OF e] by (rule quiet_trans)
      with a v s e Inr \<open>rv = Inl value_err\<close> show ?thesis
        by (auto simp: Infer_def Let_def split: option.splits if_splits)
    qed
  qed
qed

lemma quiet_NodeNamed: "NodeNamed X net name w = (r, w') \<Longrightarrow> quiet w w'"
proof -
  assume a: "NodeNamed X net name w = (r, w')"
  let ?w1 = "C X (GetNodeNamed_bn name net) w"
  have q1: "quiet w ?w1" by (rule quiet_C) (simp add: query_def)
  obtain nm w2 where n: "Network_Name X net ?w1 = (nm, w2)" by (cases "Network_Name X net ?w1")
  have "quiet w w2" using q1 quiet_Network_Name [OF n] by (rule quiet_trans)
  with a n q1 show ?thesis
    by (auto simp: NodeNamed_def Let_def split: option.splits)
qed

lemma quiet_NodeMap_loop: "NodeMap_loop X net is nodes w = (r, w') \<Longrightarrow> quiet w w'"
proof (induction "is" arbitrary: nodes w)
  case Nil
  then show ?case by simp
next
  case (Cons index rest)
  let ?w0 = "C X (NthNode_bn net index) w"
  have q0: "quiet w ?w0" by (rule quiet_C) (simp add: query_def)
  obtain name w1 where n: "Node_Name X (net, index) ?w0 = (name, w1)"
    by (cases "Node_Name X (net, index) ?w0")
  have q1: "quiet w w1" using q0 quiet_Node_Name [OF n] by (rule quiet_trans)
  from Cons.prems n have "NodeMap_loop X net rest (map_put name (net, index) nodes) w1 = (r, w')"
    by simp
  from q1 Cons.IH [OF this] show ?case by (rule quiet_trans)
qed

lemma quiet_NodeMap: "NodeMap X net w = (r, w') \<Longrightarrow> quiet w w'"
proof -
  assume a: "NodeMap X net w = (r, w')"
  let ?w1 = "C X (GetNetNodes2_bn net) w"
  have q1: "quiet w ?w1" by (rule quiet_C) (simp add: query_def)
  obtain nodes w2 where
    l: "NodeMap_loop X net (rev [0..<length (net_nodes (desc ?w1 net))]) [] ?w1 = (nodes, w2)"
    by (cases "NodeMap_loop X net (rev [0..<length (net_nodes (desc ?w1 net))]) [] ?w1")
  have q2: "quiet w w2" using q1 quiet_NodeMap_loop [OF l] by (rule quiet_trans)
  obtain e w3 where e: "Errors w2 = (e, w3)" by (cases "Errors w2")
  have q3: "quiet w w3" using q2 quiet_Errors [OF e] by (rule quiet_trans)
  have "quiet w3 (C X (DeleteNodeList_bn net) w3)" by (rule quiet_C) (simp add: query_def)
  with q3 have "quiet w (C X (DeleteNodeList_bn net) w3)" by (rule quiet_trans)
  with a l e show ?thesis
    by (auto simp: NodeMap_def Let_def split: option.splits)
qed

lemma quiet_NodeList: "NodeList X net w = (r, w') \<Longrightarrow> quiet w w'"
  by (auto simp: NodeList_def Let_def split: prod.splits sum.splits dest: quiet_NodeMap)

lemma frame_ClearFindings:
  "ClearFindings X node w = (e, w') \<Longrightarrow> frame w w' \<and> finds w' (fst node) (snd node) = None"
  by (auto simp: ClearFindings_def Errors_eq C_def frame_def set_finding_def)

lemma frame_ClearCases:
  "ClearCases X net w = (e, w') \<Longrightarrow> frame w w' \<and> finds w' net = Map.empty"
  by (auto simp: ClearCases_def Errors_eq C_def frame_def)

lemma frame_SetState: "SetState X node state w = (e, w') \<Longrightarrow> frame w w'"
  by (auto simp: SetState_def ClearFindings_def Errors_eq C_def frame_def set_finding_def
      split: if_splits)

lemma frame_SetValue: "SetValue X node v w = (e, w') \<Longrightarrow> frame w w'"
  by (auto simp: SetValue_def ClearFindings_def Errors_eq C_def frame_def set_finding_def
      split: if_splits)

lemma frame_EnterFinding: "EnterFinding X node evidence w = (e, w') \<Longrightarrow> frame w w'"
  by (auto simp: EnterFinding_def split: option.splits prod.splits sum.splits
      dest!: frame_SetState frame_SetValue quiet_StateNamed [THEN quiet_frame]
      intro: frame_trans)

lemma EnterCase_loop_frame:
  "EnterCase_loop X net caseMap ps w = (e, w') \<Longrightarrow>
     frame w w' \<and> (e \<noteq> None \<longrightarrow> finds w' net = Map.empty)"
proof (induction ps arbitrary: w)
  case Nil
  then show ?case by simp
next
  case (Cons p ps)
  obtain name node where p: "p = (name, node)" by (cases p)
  show ?case
  proof (cases "caseMap name")
    case None
    with Cons p show ?thesis by simp
  next
    case (Some evidence)
    obtain r w1 where f: "EnterFinding X node evidence w = (r, w1)"
      by (cases "EnterFinding X node evidence w")
    note f1 = frame_EnterFinding [OF f]
    show ?thesis
    proof (cases r)
      case None
      with Cons.prems p Some f have "EnterCase_loop X net caseMap ps w1 = (e, w')" by simp
      from Cons.IH [OF this] f1 show ?thesis by (auto intro: frame_trans)
    next
      case (Some err)
      obtain ig w2 where c: "ClearCases X net w1 = (ig, w2)" by (cases "ClearCases X net w1")
      from Cons.prems p \<open>caseMap name = Some evidence\<close> f Some c have "w' = w2" by simp
      with frame_ClearCases [OF c] f1 show ?thesis by (auto intro: frame_trans)
    qed
  qed
qed

lemma EnterCase_frame:
  assumes "EnterCase X net caseMap w = (e, w')"
  shows "frame w w'"
    and "e \<noteq> None \<Longrightarrow> finds w' net = Map.empty \<or> finds w' = finds w"
proof -
  obtain r w1 where n: "NodeMap X net w = (r, w1)" by (cases "NodeMap X net w")
  note q = quiet_NodeMap [OF n]
  show "frame w w'"
    using assms n q
    by (cases r) (auto simp: EnterCase_def dest!: EnterCase_loop_frame quiet_frame intro: frame_trans)
  show "e \<noteq> None \<Longrightarrow> finds w' net = Map.empty \<or> finds w' = finds w"
    using assms n q
    by (cases r) (auto simp: EnterCase_def quiet_def dest!: EnterCase_loop_frame)
qed

lemma Lock_frame:
  "Lock net w = Inr w1 \<Longrightarrow>
     w1 = w\<lparr>netlocks := (netlocks w)(net \<mapsto> True)\<rparr>"
  by (auto simp: Lock_def split: option.splits if_splits)

lemma Unlock_eq:
  "netlocks w net = Some True \<Longrightarrow>
     Unlock net w = Inr (w\<lparr>netlocks := (netlocks w)(net \<mapsto> False),
                          released := released w @ [(net, finds w net)]\<rparr>)"
  by (simp add: Unlock_def)

lemma Unlock_released:
  "Unlock net w = Inr w' \<Longrightarrow>
     released w' = released w @ [(net, finds w net)] \<and> finds w' = finds w"
  by (auto simp: Unlock_def split: option.splits if_splits)

lemma postNetNode_case_released:
  assumes "postNetNode_case X net node index evidence w = (r, w')"
      and "finds w net = Map.empty"
  shows "(\<exists>p. r = Inl p \<and> released w' = released w) \<or>
         (\<exists>single. r = Inr single \<and> released w' = released w @ [(net, Map.empty)]
            \<and> finds w' net = Map.empty)"
proof (cases "Lock net w")
  case (Inl p)
  with assms show ?thesis by (auto simp: postNetNode_case_def)
next
  case (Inr w1)
  note l = Lock_frame [OF Inr]
  have f1: "finds w1 net = Map.empty" "released w1 = released w" using l assms(2) by simp_all
  obtain e w2 where ec: "EnterCase X net evidence w1 = (e, w2)"
    by (cases "EnterCase X net evidence w1")
  note fr2 = EnterCase_frame [OF ec]
  have r2: "released w2 = released w" using fr2(1) f1 by (simp add: frame_def)
  show ?thesis
  proof (cases e)
    case (Some err)
    with fr2(2) f1 have f2: "finds w2 net = Map.empty" by auto
    show ?thesis
    proof (cases "Unlock net w2")
      case (Inl p)
      with assms(1) Inr ec Some r2 show ?thesis by (auto simp: postNetNode_case_def)
    next
      case (Inr w3)
      from Unlock_released [OF this] f2 r2 assms(1) \<open>Lock net w = Inr w1\<close> ec Some Inr
      show ?thesis by (auto simp: postNetNode_case_def Println_def)
    qed
  next
    case None
    obtain ri w3 where inf: "Infer X node w2 = (ri, w3)" by (cases "Infer X node w2")
    note q3 = quiet_Infer [OF inf]
    have r3: "released w3 = released w" using q3 r2 by (simp add: quiet_def frame_def)
    obtain ig w4 where cc: "ClearCases X net w3 = (ig, w4)" by (cases "ClearCases X net w3")
    note c4 = frame_ClearCases [OF cc]
    have r4: "released w4 = released w" "finds w4 net = Map.empty"
      using c4 r3 by (simp_all add: frame_def)
    show ?thesis
    proof (cases ri)
      case (Inl f)
      show ?thesis
      proof (cases f)
        case (Panicked p)
        with assms(1) \<open>Lock net w = Inr w1\<close> ec None inf Inl r3 show ?thesis
          by (auto simp: postNetNode_case_def)
      next
        case (Error err)
        show ?thesis
        proof (cases "Unlock net w4")
          case (Inl p)
          with assms(1) \<open>Lock net w = Inr w1\<close> ec None inf \<open>ri = Inl f\<close> Error cc r4
          show ?thesis by (auto simp: postNetNode_case_def)
        next
          case (Inr w5)
          from Unlock_released [OF this] assms(1) \<open>Lock net w = Inr w1\<close> ec None inf
            \<open>ri = Inl f\<close> Error cc r4 Inr
          show ?thesis by (auto simp: postNetNode_case_def Println_def)
        qed
      qed
    next
      case (Inr result)
      show ?thesis
      proof (cases "Unlock net w4")
        case (Inl p)
        with assms(1) \<open>Lock net w = Inr w1\<close> ec None inf Inr cc r4
        show ?thesis by (auto simp: postNetNode_case_def)
      next
        case (Inr w5)
        from Unlock_released [OF this] assms(1) \<open>Lock net w = Inr w1\<close> ec None inf
          \<open>ri = Inr result\<close> cc r4 Inr
        show ?thesis by (auto simp: postNetNode_case_def)
      qed
    qed
  qed
qed

section \<open>Proofs: the concrete instance\<close>

lemma C_noop: "query c \<Longrightarrow> reports X c w = [] \<Longrightarrow> C X c w = w"
  by (simp add: C_query)

lemma Errors_none: "errq w = [] \<Longrightarrow> Errors w = (None, w)"
  by (simp add: Errors_eq)

lemma demo_extern_fields:
  "ParseFloat demo_extern = Atoi"
  "FormatFloat demo_extern = Itoa"
  "float_gt demo_extern = (\<lambda>a b. b < a)"
  "range_order demo_extern = (\<lambda>w m. m)"
  "reports demo_extern = demo_reports"
  "entered demo_extern = (\<lambda>w node f. Some f)"
  "beliefs demo_extern = (\<lambda>w node index. if index < 3 then [2, 5, 3] ! index else 0)"
  "expected_value demo_extern = (\<lambda>w node. (- 1, 0))"
  "UndefDbl demo_extern = - 1"
  by (simp_all add: demo_extern_def)

lemma demo_world_fields:
  "errq demo_world = []"
  "live demo_world = [0]"
  "desc demo_world = (\<lambda>net. demo_net)"
  "finds demo_world = (\<lambda>net. Map.empty)"
  "netlocks demo_world = [0 \<mapsto> False]"
  "logged demo_world = []"
  "released demo_world = []"
  by (simp_all add: demo_world_def)

lemma demo_quiet_call: "query c \<Longrightarrow> C demo_extern c w = w"
  by (cases c) (simp_all add: C_query demo_extern_fields demo_reports_def query_def)

lemma demo_the_node:
  "the_node demo_world (0, 0) = Some (demo_nodes ! 0)"
  "the_node demo_world (0, Suc 0) = Some (demo_nodes ! 1)"
  "the_node demo_world (0, 2) = Some (demo_nodes ! 2)"
  "the_node demo_world (0, 3) = Some (demo_nodes ! 3)"
  by (simp_all add: the_node_def demo_world_fields demo_net_def demo_nodes_def)

lemma demo_number_states:
  "number_states demo_world (0, 0) = 3" "number_states demo_world (0, Suc 0) = 2"
  "number_states demo_world (0, 2) = 0"
  "number_states demo_world (0, 3) = 3"
  by (simp_all add: number_states_def demo_the_node demo_nodes_def)

lemma demo_BeliefList: "BeliefList demo_extern (0, 0) demo_world = (Inr [2, 5, 3], demo_world)"
  by (simp add: BeliefList_def Let_def demo_quiet_call query_def demo_number_states
      demo_extern_fields demo_world_fields Errors_none upt_rec)

lemma demo_State: "State demo_extern (0, 0) demo_world = (Inr 1, demo_world)"
  by (simp add: State_def demo_BeliefList demo_extern_fields)

lemma demo_Value: "Value demo_extern (0, 0) demo_world = (Inl undefined_expected_value, demo_world)"
  by (simp add: Value_def demo_quiet_call query_def demo_extern_fields demo_world_fields Errors_none)

lemma demo_Infer: "Infer demo_extern (0, 0) demo_world = (Inr ''Medium'', demo_world)"
  by (simp add: Infer_def demo_Value demo_State state_name_def state_bn_def demo_the_node
      demo_nodes_def demo_quiet_call query_def demo_world_fields Errors_none)

section \<open>The claims about node.go\<close>

lemma State_loop_bound:
  "maxIndex < index + length bs \<Longrightarrow> State_loop gt bs index maxIndex maxBelief < index + length bs"
proof (induction bs arbitrary: index maxIndex maxBelief)
  case Nil
  then show ?case by simp
next
  case (Cons b bs)
  have a: "index < Suc index + length bs" by simp
  have b: "maxIndex < Suc index + length bs" using Cons.prems by simp
  show ?case using Cons.IH [OF a] Cons.IH [OF b] by simp
qed

lemma for_collect_length: "for_collect body is w = (xs, w') \<Longrightarrow> length xs = length is"
  by (induction "is" arbitrary: w xs w') (auto split: prod.splits)

lemma BeliefList_length:
  "BeliefList X node w = (Inr bl, w1) \<Longrightarrow> length bl = number_states w node"
  by (auto simp: BeliefList_def Let_def number_states_def the_node_def C_def
      split: prod.splits option.splits dest!: for_collect_length)

lemma demo_SetState_refused:
  "fst (SetState demo_extern (0, 0) 7 demo_world) = Some ''1 - state out of range''"
  by (simp add: SetState_def ClearFindings_def C_def Errors_eq state_bn_def demo_extern_fields
      demo_world_fields demo_reports_def demo_number_states set_finding_def report_message_def
      Itoa_def digits.simps digit_char_def split: prod.splits)

lemma demo_BeliefList_Flow: "BeliefList demo_extern (0, 2) demo_world = (Inr [], demo_world)"
  by (simp add: BeliefList_def Let_def demo_quiet_call query_def demo_number_states
      demo_world_fields Errors_none)

text \<open>
  C7. If \<open>SetState\<close> or \<open>SetValue\<close> returns an error, the node holds no finding when the
  error reaches the caller, whatever the engine had left on the node and whether or not
  the retraction itself reported an error.
\<close>

theorem SetState_SetValue_rollback:
  "(SetState X node state w = (Some err, w') \<longrightarrow> finds w' (fst node) (snd node) = None) \<and>
   (SetValue X node v w = (Some err, w') \<longrightarrow> finds w' (fst node) (snd node) = None)"
  by (auto simp: SetState_def SetValue_def split: prod.splits option.splits
      dest: frame_ClearFindings)

theorem SetState_SetValue_rollback_witness:
  "fst (SetState demo_extern (0, 0) 7 demo_world) = Some ''1 - state out of range'' \<and>
   finds (snd (SetState demo_extern (0, 0) 7 demo_world)) 0 0 = None"
proof -
  have h: "SetState demo_extern (0, 0) 7 demo_world
             = (Some ''1 - state out of range'', snd (SetState demo_extern (0, 0) 7 demo_world))"
    using demo_SetState_refused by (simp add: prod_eq_iff)
  have "finds (snd (SetState demo_extern (0, 0) 7 demo_world)) (fst (0::nat, 0::nat)) (snd (0::nat, 0::nat)) = None"
    by (rule SetState_SetValue_rollback [THEN conjunct1, THEN mp, OF h])
  with demo_SetState_refused show ?thesis by simp
qed

text \<open>
  C10. \<open>Node.State\<close> reads \<open>beliefList[0]\<close> unguarded. When \<open>BeliefList\<close> returns a list
  (it has one belief for each state of the node), a non-empty list yields an index within
  the list, and an empty list, that of a node without states, makes the read panic.
\<close>

theorem State_unguarded_first_belief:
  "BeliefList X node w = (Inr beliefList, w1) \<Longrightarrow>
     length beliefList = number_states w node \<and>
     (beliefList \<noteq> [] \<longrightarrow>
        (\<exists>maxIndex. State X node w = (Inr maxIndex, w1) \<and> maxIndex < length beliefList)) \<and>
     (beliefList = [] \<longrightarrow> State X node w = (Inl (Panicked IndexOutOfRange), w1))"
proof (intro conjI impI)
  assume a: "BeliefList X node w = (Inr beliefList, w1)"
  show "length beliefList = number_states w node"
    using a by (rule BeliefList_length)
  {
    assume ne: "beliefList \<noteq> []"
    then obtain maxBelief others where c: "beliefList = maxBelief # others"
      by (cases beliefList) auto
    have "State_loop (float_gt X) beliefList 0 0 maxBelief < 0 + length beliefList"
      by (rule State_loop_bound) (simp add: c)
    then show "\<exists>maxIndex. State X node w = (Inr maxIndex, w1) \<and> maxIndex < length beliefList"
      using a c by (simp add: State_def)
  }
  {
    assume "beliefList = []"
    then show "State X node w = (Inl (Panicked IndexOutOfRange), w1)"
      using a by (simp add: State_def)
  }
qed

theorem State_unguarded_first_belief_witness:
  "(\<exists>maxIndex. State demo_extern (0, 0) demo_world = (Inr maxIndex, demo_world) \<and> maxIndex < 3) \<and>
   number_states demo_world (0, 2) = 0 \<and>
   State demo_extern (0, 2) demo_world = (Inl (Panicked IndexOutOfRange), demo_world)"
proof -
  have "\<exists>maxIndex. State demo_extern (0, 0) demo_world = (Inr maxIndex, demo_world)
          \<and> maxIndex < length [2, 5, 3 :: int]"
    using State_unguarded_first_belief [OF demo_BeliefList] by (simp add: demo_number_states)
  moreover have "State demo_extern (0, 2) demo_world = (Inl (Panicked IndexOutOfRange), demo_world)"
    using State_unguarded_first_belief [OF demo_BeliefList_Flow] by simp
  ultimately show ?thesis by (auto simp: demo_number_states numeral_3_eq_3)
qed

section \<open>Evidence tokens\<close>





















section \<open>Inference on a node\<close>

lemma small_upt: "[0..<2] = [0, 1]" "[0..<3] = [0, 1, 2]" "[0..<4] = [0, 1, 2, 3]"
  by (simp_all add: upt_rec)

lemma errq_update_reads [simp]:
  "the_node (w\<lparr>errq := q\<rparr>) = the_node w"
  "number_states (w\<lparr>errq := q\<rparr>) = number_states w"
  "state_name (w\<lparr>errq := q\<rparr>) = state_name w"
  by (simp_all add: fun_eq_iff the_node_def number_states_def state_name_def)

lemma digits_head: "digits n \<noteq> [] \<and> hd (digits n) \<in> set ''0123456789''"
proof (induction n rule: digits.induct)
  case (1 n)
  show ?case
  proof (cases "n < 10")
    case True
    then have "n \<in> {0, 1, 2, 3, 4, 5, 6, 7, 8, 9}" by auto
    then show ?thesis
      by (subst digits.simps, subst (2) digits.simps) (auto simp: digit_char_def)
  next
    case False
    with "1" have "digits (n div 10) \<noteq> [] \<and> hd (digits (n div 10)) \<in> set ''0123456789''"
      by simp
    with False show ?thesis
      by (subst digits.simps, subst (2) digits.simps) simp
  qed
qed

lemma report_message_head:
  "report_message r \<noteq> [] \<and> hd (report_message r) \<in> set ''-0123456789''"
  using digits_head [of "nat (fst r)"] digits_head [of "nat (- fst r)"]
  by (auto simp: report_message_def Itoa_def)

lemma Join_head: "x \<noteq> [] \<Longrightarrow> Join (x # xs) sep \<noteq> [] \<and> hd (Join (x # xs) sep) = hd x"
  by (cases xs) auto

lemma Errors_message:
  assumes "Errors w = (Some err, w')"
  shows "err \<noteq> []" and "hd err \<in> set ''-0123456789''"
proof -
  from assms obtain r rs where q: "errq w = r # rs"
    by (cases "errq w") (auto simp: Errors_eq)
  with assms have e: "err = Join (report_message r # map report_message rs) [CHR 0x0A]"
    by (auto simp: Errors_eq)
  from Join_head [of "report_message r"] report_message_head [of r] e
  show "err \<noteq> []" and "hd err \<in> set ''-0123456789''" by auto
qed

lemma Errors_not_undefined: "Errors w = (Some err, w') \<Longrightarrow> err \<noteq> undefined_expected_value"
  using Errors_message(2) [of w err w'] by (auto simp: undefined_expected_value_def)

lemma BeliefList_error:
  "BeliefList X node w = (Inl err, w') \<Longrightarrow> err \<noteq> [] \<and> err \<noteq> undefined_expected_value"
  by (auto simp: BeliefList_def Let_def split: prod.splits option.splits
      dest: Errors_message(1) Errors_not_undefined)

lemma State_error:
  "State X node w = (Inl (Error err), w') \<Longrightarrow> err \<noteq> [] \<and> err \<noteq> undefined_expected_value"
  by (auto simp: State_def split: prod.splits sum.splits list.splits dest: BeliefList_error)

lemma Value_error: "Value X node w = (Inl err, w') \<Longrightarrow> err \<noteq> []"
  by (auto simp: Value_def Let_def undefined_expected_value_def
      split: prod.splits option.splits if_splits dest: Errors_message(1))

lemma Infer_Value:
  "Value X node w = (Inr (v, stdDev), w1) \<Longrightarrow> Infer X node w = (Inr (FormatFloat X v), w1)"
  by (simp add: Infer_def)

lemma Infer_State_fails:
  "Value X node w = (Inl value_err, w1) \<Longrightarrow> State X node w1 = (Inl f, w2) \<Longrightarrow>
     Infer X node w = (Inl f, w2)"
  by (simp add: Infer_def)

lemma Infer_State:
  assumes "Value X node w = (Inl value_err, w1)" and "State X node w1 = (Inr index, w2)"
      and "Errors (C X (GetNodeStateName_bn node (state_bn (int index))) w2) = (e, w3)"
  shows "Infer X node w =
           (case e of
              Some err \<Rightarrow> Inl (Error err)
            | None \<Rightarrow>
                Inr (if state_name w2 node (state_bn (int index)) \<noteq> []
                     then state_name w2 node (state_bn (int index))
                     else ''#'' @ Itoa (int index)), w3)"
  using assms by (simp add: Infer_def Let_def split: option.splits)

lemma Infer_error:
  "Infer X node w = (Inl (Error err), w') \<Longrightarrow> err \<noteq> [] \<and> err \<noteq> undefined_expected_value"
  by (auto simp: Infer_def Let_def split: prod.splits sum.splits option.splits if_splits
      dest: State_error Errors_message(1) Errors_not_undefined)

text \<open>
  C3, as the code has it. \<open>Infer\<close> tries \<open>Value\<close> first and returns the formatted value
  when it succeeds. When \<open>Value\<close> fails, with the undefined expected value or with any
  other error, that error is dropped and \<open>Infer\<close> goes on with \<open>State\<close>: an error (or the
  panic) of \<open>State\<close> is returned as it is; otherwise the name of the state is read, an
  error of that read is returned, and the result is the name or, for an empty name,
  \<open>#\<close> and the index. The undefined-expected-value error is never returned.
\<close>

theorem Infer_fallback:
  "(\<forall>v stdDev w1. Value X node w = (Inr (v, stdDev), w1) \<longrightarrow>
       Infer X node w = (Inr (FormatFloat X v), w1)) \<and>
   (\<forall>value_err w1. Value X node w = (Inl value_err, w1) \<longrightarrow>
       (\<forall>f w2. State X node w1 = (Inl f, w2) \<longrightarrow> Infer X node w = (Inl f, w2)) \<and>
       (\<forall>index w2 e w3. State X node w1 = (Inr index, w2) \<and>
            Errors (C X (GetNodeStateName_bn node (state_bn (int index))) w2) = (e, w3) \<longrightarrow>
            Infer X node w =
              (case e of
                 Some err \<Rightarrow> Inl (Error err)
               | None \<Rightarrow>
                   Inr (if state_name w2 node (state_bn (int index)) \<noteq> []
                        then state_name w2 node (state_bn (int index))
                        else ''#'' @ Itoa (int index)), w3))) \<and>
   fst (Infer X node w) \<noteq> Inl (Error undefined_expected_value)"
proof (intro conjI allI impI)
  show "fst (Infer X node w) \<noteq> Inl (Error undefined_expected_value)"
    using Infer_error [of X node w undefined_expected_value "snd (Infer X node w)"]
    by (auto simp: prod_eq_iff)
qed (auto simp: Infer_Value Infer_State_fails Infer_State)



lemma variant_fields:
  "FormatFloat value_fails = Itoa" "float_gt value_fails = (\<lambda>a b. b < a)"
  "beliefs value_fails = (\<lambda>w node index. if index < 3 then [2, 5, 3] ! index else 0)"
  "expected_value value_fails = (\<lambda>w node. (- 1, 0))" "UndefDbl value_fails = - 1"
  "FormatFloat beliefs_fail = Itoa" "float_gt beliefs_fail = (\<lambda>a b. b < a)"
  "beliefs beliefs_fail = (\<lambda>w node index. if index < 3 then [2, 5, 3] ! index else 0)"
  "expected_value beliefs_fail = (\<lambda>w node. (- 1, 0))" "UndefDbl beliefs_fail = - 1"
  "FormatFloat value_defined = Itoa" "float_gt value_defined = (\<lambda>a b. b < a)"
  "beliefs value_defined = (\<lambda>w node index. if index < 3 then [2, 5, 3] ! index else 0)"
  "expected_value value_defined = (\<lambda>w node. (7, 1))" "UndefDbl value_defined = - 1"
  by (simp_all add: value_fails_def beliefs_fail_def value_defined_def demo_extern_def)

lemma value_fails_call:
  "C value_fails (GetNodeExpectedValue_bn node) w
     = w\<lparr>errq := errq w @ [(3, ''no expected value'')]\<rparr>"
  "C value_fails (GetNodeBeliefs_bn node) w = w"
  "C value_fails (GetNodeNumberStates_bn node) w = w"
  "C value_fails (NthProb_bn node index) w = w"
  "C value_fails (GetNodeStateName_bn node i) w = w"
  by (simp_all add: C_query query_def value_fails_def demo_reports_def)

lemma beliefs_fail_call:
  "C beliefs_fail (GetNodeBeliefs_bn node) w
     = w\<lparr>errq := errq w @ [(4, ''inconsistent findings'')]\<rparr>"
  "C beliefs_fail (GetNodeExpectedValue_bn node) w = w"
  "C beliefs_fail (GetNodeNumberStates_bn node) w = w"
  "C beliefs_fail (NthProb_bn node index) w = w"
  by (simp_all add: C_query query_def beliefs_fail_def demo_reports_def)

lemma value_defined_call: "query c \<Longrightarrow> C value_defined c w = w"
  by (cases c) (simp_all add: C_query value_defined_def demo_extern_fields demo_reports_def query_def)

lemma demo_world_drained: "demo_world\<lparr>errq := []\<rparr> = demo_world"
  by (simp add: demo_world_def)

lemma value_fails_Value:
  "Value value_fails (0, 0) demo_world = (Inl ''3 - no expected value'', demo_world)"
  by (simp add: Value_def value_fails_call Errors_eq demo_world_fields demo_world_drained
      report_message_def Itoa_def digits.simps digit_char_def)

lemma value_fails_BeliefList:
  "BeliefList value_fails (0, 0) demo_world = (Inr [2, 5, 3], demo_world)"
  by (simp add: BeliefList_def Let_def value_fails_call demo_number_states
      variant_fields demo_world_fields Errors_none small_upt)

lemma value_fails_State: "State value_fails (0, 0) demo_world = (Inr 1, demo_world)"
  by (simp add: State_def value_fails_BeliefList variant_fields)

lemma value_fails_Infer: "Infer value_fails (0, 0) demo_world = (Inr ''Medium'', demo_world)"
  by (simp add: Infer_def value_fails_Value value_fails_State
      state_name_def state_bn_def demo_the_node
      demo_nodes_def value_fails_call demo_world_fields Errors_none)


theorem Infer_drops_value_error:
  "Value value_fails (0, 0) demo_world = (Inl ''3 - no expected value'', demo_world) \<and>
   ''3 - no expected value'' \<noteq> undefined_expected_value \<and>
   Infer value_fails (0, 0) demo_world = (Inr ''Medium'', demo_world)"
  by (simp add: value_fails_Value value_fails_Infer undefined_expected_value_def)

lemma value_defined_Value:
  "Value value_defined (0, 0) demo_world = (Inr (7, 1), demo_world)"
  by (simp add: Value_def value_defined_call query_def variant_fields
      demo_world_fields Errors_none)

lemma demo_BeliefList_Gate:
  "BeliefList demo_extern (0, 3) demo_world = (Inr [2, 5, 3], demo_world)"
  by (simp add: BeliefList_def Let_def demo_quiet_call query_def demo_number_states
      demo_extern_fields demo_world_fields Errors_none small_upt)

lemma demo_State_Gate: "State demo_extern (0, 3) demo_world = (Inr 1, demo_world)"
  by (simp add: State_def demo_BeliefList_Gate demo_extern_fields)

lemma demo_Value_any: "Value demo_extern node demo_world = (Inl undefined_expected_value, demo_world)"
  by (simp add: Value_def demo_quiet_call query_def demo_extern_fields demo_world_fields Errors_none)

lemma beliefs_fail_Value:
  "Value beliefs_fail (0, 0) demo_world = (Inl undefined_expected_value, demo_world)"
  by (simp add: Value_def beliefs_fail_call variant_fields
      demo_world_fields Errors_none)

lemma beliefs_fail_State:
  "State beliefs_fail (0, 0) demo_world = (Inl (Error ''4 - inconsistent findings''), demo_world)"
  by (simp add: State_def BeliefList_def Let_def beliefs_fail_call demo_number_states
      variant_fields demo_world_fields Errors_eq demo_world_drained small_upt
      report_message_def Itoa_def digits.simps digit_char_def)


theorem Infer_fallback_witness:
  "Infer value_defined (0, 0) demo_world = (Inr ''7'', demo_world) \<and>
   Infer demo_extern (0, 0) demo_world = (Inr ''Medium'', demo_world) \<and>
   Infer demo_extern (0, 3) demo_world = (Inr ''#1'', demo_world) \<and>
   Infer beliefs_fail (0, 0) demo_world = (Inl (Error ''4 - inconsistent findings''), demo_world) \<and>
   fst (Infer value_fails (0, 0) demo_world) \<noteq> Inl (Error undefined_expected_value)"
proof -
  have e: "\<And>node. Errors (C demo_extern (GetNodeStateName_bn node (state_bn (int 1))) demo_world)
            = (None, demo_world)"
    by (simp add: demo_quiet_call query_def Errors_none demo_world_fields)
  have n: "state_name demo_world (0, 0) (state_bn (int 1)) = ''Medium''"
    "state_name demo_world (0, 3) (state_bn (int 1)) = []"
    by (simp_all add: state_name_def state_bn_def demo_the_node demo_nodes_def)
  have "\<forall>v stdDev w1. Value value_defined (0, 0) demo_world = (Inr (v, stdDev), w1) \<longrightarrow>
          Infer value_defined (0, 0) demo_world = (Inr (FormatFloat value_defined v), w1)"
    using Infer_fallback [of value_defined "(0, 0)" demo_world] by (rule conjunct1)
  then have c1: "Infer value_defined (0, 0) demo_world = (Inr ''7'', demo_world)"
    by (simp add: value_defined_Value variant_fields Itoa_def digits.simps digit_char_def)
  have "\<forall>index w2 e w3. State demo_extern (0, 0) demo_world = (Inr index, w2) \<and>
            Errors (C demo_extern (GetNodeStateName_bn (0, 0) (state_bn (int index))) w2) = (e, w3) \<longrightarrow>
            Infer demo_extern (0, 0) demo_world =
              (case e of
                 Some err \<Rightarrow> Inl (Error err)
               | None \<Rightarrow>
                   Inr (if state_name w2 (0, 0) (state_bn (int index)) \<noteq> []
                        then state_name w2 (0, 0) (state_bn (int index))
                        else ''#'' @ Itoa (int index)), w3)"
    using Infer_fallback [of demo_extern "(0, 0)" demo_world] demo_Value_any [of "(0, 0)"]
    by blast
  from this [rule_format, of 1 demo_world None demo_world]
  have c2: "Infer demo_extern (0, 0) demo_world = (Inr ''Medium'', demo_world)"
    using e [of "(0, 0)"] n by (simp add: demo_State)
  have "\<forall>index w2 e w3. State demo_extern (0, 3) demo_world = (Inr index, w2) \<and>
            Errors (C demo_extern (GetNodeStateName_bn (0, 3) (state_bn (int index))) w2) = (e, w3) \<longrightarrow>
            Infer demo_extern (0, 3) demo_world =
              (case e of
                 Some err \<Rightarrow> Inl (Error err)
               | None \<Rightarrow>
                   Inr (if state_name w2 (0, 3) (state_bn (int index)) \<noteq> []
                        then state_name w2 (0, 3) (state_bn (int index))
                        else ''#'' @ Itoa (int index)), w3)"
    using Infer_fallback [of demo_extern "(0, 3)" demo_world] demo_Value_any [of "(0, 3)"]
    by blast
  from this [rule_format, of 1 demo_world None demo_world]
  have c3: "Infer demo_extern (0, 3) demo_world = (Inr ''#1'', demo_world)"
    using e [of "(0, 3)"] n
    by (simp add: demo_State_Gate Itoa_def digits.simps digit_char_def)
  have "\<forall>f w2. State beliefs_fail (0, 0) demo_world = (Inl f, w2) \<longrightarrow>
          Infer beliefs_fail (0, 0) demo_world = (Inl f, w2)"
    using Infer_fallback [of beliefs_fail "(0, 0)" demo_world] beliefs_fail_Value by blast
  then have c4: "Infer beliefs_fail (0, 0) demo_world
              = (Inl (Error ''4 - inconsistent findings''), demo_world)"
    by (simp add: beliefs_fail_State)
  have c5: "fst (Infer value_fails (0, 0) demo_world) \<noteq> Inl (Error undefined_expected_value)"
    using Infer_fallback [of value_fails "(0, 0)" demo_world] by (elim conjE)
  from c1 c2 c3 c4 c5 show ?thesis by (intro conjI)
qed

section \<open>Entering a case\<close>

lemma EnterCase_pair_failure:
  assumes "NodeMap X net w = (Inr nodeMap, w1)" and "EnterCase X net caseMap w = (Some err, w')"
  shows "finds w' net = Map.empty"
proof -
  from assms have "EnterCase_loop X net caseMap (go_range X w1 nodeMap) w1 = (Some err, w')"
    by (simp add: EnterCase_def)
  from EnterCase_loop_frame [OF this] show ?thesis by simp
qed

text \<open>
  C2, as the code has it. When \<open>EnterCase\<close> returns an error because the evidence of a
  node failed, the network holds no finding at all, also none that it held before the
  call; when it returns the error of \<open>NodeMap\<close>, no evidence was tried and the findings
  are those before the call. So the findings after an error equal those before the call
  whenever the network held none before.
\<close>

theorem EnterCase_rollback:
  assumes "EnterCase X net caseMap w = (Some err, w')"
  shows "(\<forall>nodeMap w1. NodeMap X net w = (Inr nodeMap, w1) \<longrightarrow> finds w' net = Map.empty) \<and>
         (\<forall>e w1. NodeMap X net w = (Inl e, w1) \<longrightarrow> finds w' = finds w) \<and>
         (finds w net = Map.empty \<longrightarrow> finds w' net = finds w net)"
proof (intro conjI allI impI)
  fix nodeMap w1
  assume n: "NodeMap X net w = (Inr nodeMap, w1)"
  from EnterCase_pair_failure [OF n assms] show "finds w' net = Map.empty" .
next
  fix e w1
  assume n: "NodeMap X net w = (Inl e, w1)"
  with assms have "w' = w1" by (simp add: EnterCase_def)
  with quiet_NodeMap [OF n] show "finds w' = finds w" by (simp add: quiet_def)
next
  assume "finds w net = Map.empty"
  with EnterCase_frame(2) [OF assms] show "finds w' net = finds w net" by auto
qed

lemma demo_Node_Name: "Node_Name demo_extern node w = (node_field node_name w node, w)"
  by (simp add: Node_Name_def demo_quiet_call query_def)

lemma demo_node_names:
  assumes "desc w = (\<lambda>net. demo_net)"
  shows "node_field node_name w (0, 0) = ''Level''" "node_field node_name w (0, Suc 0) = ''Code''"
    "node_field node_name w (0, 2) = ''Flow''" "node_field node_name w (0, 3) = ''Gate''"
  using assms by (simp_all add: node_field_def the_node_def demo_net_def demo_nodes_def)

lemma demo_NodeMap:
  assumes "desc w = (\<lambda>net. demo_net)" and "errq w = []"
  shows "NodeMap demo_extern 0 w = (Inr demo_nodeMap, w)"
proof -
  have l: "length (net_nodes (desc w 0)) = 4"
    using assms by (simp add: demo_net_def demo_nodes_def)
  have r: "rev [0..<4] = [3, 2, 1, 0]" by (simp add: small_upt)
  show ?thesis
    by (simp add: NodeMap_def Let_def demo_quiet_call query_def l r demo_Node_Name
        demo_node_names [OF assms(1)] Errors_none assms(2) demo_nodeMap_def)
qed

lemma demo_go_range: "go_range demo_extern w m = m"
  by (simp add: go_range_def demo_extern_fields)

lemma demo_found_fields:
  "errq demo_found = []" "desc demo_found = (\<lambda>net. demo_net)"
  "finds demo_found = (\<lambda>net. Map.empty)(0 := [0 \<mapsto> StateFinding 2])"
  by (simp_all add: demo_found_def demo_world_fields)

lemma demo_EnterFinding_bogus:
  assumes "desc w = (\<lambda>net. demo_net)" and "errq w = []"
  shows "EnterFinding demo_extern (0, Suc 0) ''bogus'' w
           = (Some ''In function Node.StateNamed: state bogus not defined for node Code'', w)"
proof -
  have "state_named w ''bogus'' (0, Suc 0) = UNDEF_STATE"
    using assms(1) by (simp add: state_named_def the_node_def demo_net_def demo_nodes_def)
  then show ?thesis
    by (simp add: EnterFinding_def demo_extern_fields Atoi_def digit_val_def HasPrefix_def
        StateNamed_def demo_quiet_call query_def Errors_none assms(2) demo_Node_Name
        demo_node_names [OF assms(1)])
qed

lemma demo_EnterCase_bogus:
  "fst (EnterCase demo_extern 0 [''Code'' \<mapsto> ''bogus''] demo_found)
     = Some ''In function Node.StateNamed: state bogus not defined for node Code''"
  by (simp add: EnterCase_def demo_NodeMap demo_found_fields demo_go_range demo_nodeMap_def
      demo_EnterFinding_bogus split: prod.splits)

theorem EnterCase_clears_earlier_findings:
  "fst (EnterCase demo_extern 0 [''Code'' \<mapsto> ''bogus''] demo_found)
     = Some ''In function Node.StateNamed: state bogus not defined for node Code'' \<and>
   finds demo_found 0 0 = Some (StateFinding 2) \<and>
   finds (snd (EnterCase demo_extern 0 [''Code'' \<mapsto> ''bogus''] demo_found)) 0 = Map.empty \<and>
   finds (snd (EnterCase demo_extern 0 [''Code'' \<mapsto> ''bogus''] demo_found)) 0
     \<noteq> finds demo_found 0"
proof -
  let ?r = "EnterCase demo_extern 0 [''Code'' \<mapsto> ''bogus''] demo_found"
  have e: "?r = (Some ''In function Node.StateNamed: state bogus not defined for node Code'', snd ?r)"
    using demo_EnterCase_bogus by (simp add: prod_eq_iff)
  have n: "NodeMap demo_extern 0 demo_found = (Inr demo_nodeMap, demo_found)"
    by (simp add: demo_NodeMap demo_found_fields)
  have c: "finds (snd ?r) 0 = Map.empty"
    by (rule EnterCase_pair_failure [OF n e])
  have b: "finds demo_found 0 0 = Some (StateFinding 2)"
    by (simp add: demo_found_fields)
  have "finds (snd ?r) 0 0 \<noteq> finds demo_found 0 0" using b c by simp
  then have "finds (snd ?r) 0 \<noteq> finds demo_found 0" by metis
  with demo_EnterCase_bogus b c show ?thesis by simp
qed

lemma demo_StateNamed_open:
  "StateNamed demo_extern (0, 3) ''open'' demo_world = (Inr 0, demo_world)"
proof -
  have s: "state_named demo_world ''open'' (0, 3) = 0"
    by (simp add: state_named_def demo_the_node demo_nodes_def)
  have "(0::int) \<noteq> UNDEF_STATE" by (simp add: UNDEF_STATE_def)
  then show ?thesis
    by (simp add: StateNamed_def s demo_quiet_call query_def Errors_none demo_world_fields)
qed

lemma demo_SetState_open:
  "SetState demo_extern (0, 3) 0 demo_world
     = (None, set_finding (0, 3) (Some (StateFinding 0)) demo_world)"
proof -
  have r: "demo_reports (EnterFinding_bn (0, 3) 0) demo_world = []"
    by (simp add: demo_reports_def demo_number_states)
  show ?thesis
    by (simp add: SetState_def state_bn_def C_def r demo_extern_fields demo_world_fields
        set_finding_def Errors_none)
qed

lemma demo_EnterFinding_open:
  "EnterFinding demo_extern (0, 3) ''open'' demo_world
     = (None, set_finding (0, 3) (Some (StateFinding 0)) demo_world)"
  by (simp add: EnterFinding_def demo_extern_fields Atoi_def digit_val_def HasPrefix_def
      demo_StateNamed_open demo_SetState_open)

lemma demo_EnterCase_open_bogus:
  "fst (EnterCase demo_extern 0 [''Gate'' \<mapsto> ''open'', ''Code'' \<mapsto> ''bogus''] demo_world)
     = Some ''In function Node.StateNamed: state bogus not defined for node Code''"
  by (simp add: EnterCase_def demo_NodeMap demo_world_fields demo_go_range demo_nodeMap_def
      demo_EnterFinding_open demo_EnterFinding_bogus set_finding_def split: prod.splits)

lemma demo_EnterCase_stale:
  "EnterCase demo_extern 0 caseMap (demo_world\<lparr>errq := [(9, ''stale'')]\<rparr>)
     = (Some ''9 - stale'', demo_world)"
  "NodeMap demo_extern 0 (demo_world\<lparr>errq := [(9, ''stale'')]\<rparr>) = (Inl ''9 - stale'', demo_world)"
proof -
  have r: "rev [0..<4] = [3, 2, 1, 0]" by (simp add: small_upt)
  show n: "NodeMap demo_extern 0 (demo_world\<lparr>errq := [(9, ''stale'')]\<rparr>)
             = (Inl ''9 - stale'', demo_world)"
    by (simp add: NodeMap_def Let_def demo_quiet_call query_def demo_world_fields demo_net_def
        demo_nodes_def r demo_Node_Name Errors_eq demo_world_drained report_message_def Itoa_def
        digits.simps digit_char_def)
  show "EnterCase demo_extern 0 caseMap (demo_world\<lparr>errq := [(9, ''stale'')]\<rparr>)
     = (Some ''9 - stale'', demo_world)"
    by (simp add: EnterCase_def n)
qed

theorem EnterCase_rollback_witness:
  "fst (EnterCase demo_extern 0 [''Gate'' \<mapsto> ''open'', ''Code'' \<mapsto> ''bogus''] demo_world)
     = Some ''In function Node.StateNamed: state bogus not defined for node Code'' \<and>
   finds (snd (EnterCase demo_extern 0 [''Gate'' \<mapsto> ''open'', ''Code'' \<mapsto> ''bogus''] demo_world)) 0
     = Map.empty \<and>
   finds demo_world 0 = Map.empty \<and>
   EnterCase demo_extern 0 [''Gate'' \<mapsto> ''open''] (demo_world\<lparr>errq := [(9, ''stale'')]\<rparr>)
     = (Some ''9 - stale'', demo_world) \<and>
   finds demo_world = finds (demo_world\<lparr>errq := [(9, ''stale'')]\<rparr>)"
proof -
  let ?cm = "[''Gate'' \<mapsto> ''open'', ''Code'' \<mapsto> ''bogus'']"
  let ?r = "EnterCase demo_extern 0 ?cm demo_world"
  have e: "?r = (Some ''In function Node.StateNamed: state bogus not defined for node Code'', snd ?r)"
    using demo_EnterCase_open_bogus by (simp add: prod_eq_iff)
  have n: "NodeMap demo_extern 0 demo_world = (Inr demo_nodeMap, demo_world)"
    by (simp add: demo_NodeMap demo_world_fields)
  have c1: "finds (snd ?r) 0 = Map.empty"
    using EnterCase_rollback [OF e] n by blast
  have c2: "finds demo_world = finds (demo_world\<lparr>errq := [(9, ''stale'')]\<rparr>)"
    using EnterCase_rollback [OF demo_EnterCase_stale(1) [of "[''Gate'' \<mapsto> ''open'']"]]
      demo_EnterCase_stale(2) by blast
  from demo_EnterCase_open_bogus c1 c2 demo_EnterCase_stale(1) show ?thesis
    by (simp add: demo_world_fields)
qed

section \<open>The batch of cases\<close>












lemma Lock_eq:
  "netlocks w net = Some False \<Longrightarrow> Lock net w = Inr (w\<lparr>netlocks := (netlocks w)(net \<mapsto> True)\<rparr>)"
  by (auto simp: Lock_def)






lemma postNetNode_loop_released:
  assumes "finds w net = Map.empty"
      and "postNetNode_loop X net node index cases acc w = (r, w')"
  shows "\<exists>k\<le>length cases.
           released w' = released w @ replicate k (net, Map.empty) \<and>
           (\<forall>results. r = Inr results \<longrightarrow>
              finds w' net = Map.empty \<and> k = length cases \<and>
              length results = length acc + length cases)"
  using assms
proof (induction cases arbitrary: index acc w)
  case Nil
  then show ?case by auto
next
  case (Cons evidence rest)
  obtain rc w1 where c: "postNetNode_case X net node index evidence w = (rc, w1)"
    by (cases "postNetNode_case X net node index evidence w")
  from postNetNode_case_released [OF c Cons.prems(1)]
  show ?case
  proof (elim disjE exE conjE)
    fix p
    assume "rc = Inl p" and "released w1 = released w"
    with c Cons.prems(2) show ?thesis
      by (intro exI [of _ 0]) auto
  next
    fix single
    assume rc: "rc = Inr single"
      and r1: "released w1 = released w @ [(net, Map.empty)]"
      and f1: "finds w1 net = Map.empty"
    from c rc Cons.prems(2)
    have l: "postNetNode_loop X net node (Suc index) rest (acc @ [single]) w1 = (r, w')"
      by simp
    from Cons.IH [OF f1 l] obtain k where
      k: "k \<le> length rest" "released w' = released w1 @ replicate k (net, Map.empty)"
        "\<forall>results. r = Inr results \<longrightarrow>
           finds w' net = Map.empty \<and> k = length rest \<and>
           length results = length (acc @ [single]) + length rest"
      by blast
    with r1 show ?thesis
      by (intro exI [of _ "Suc k"]) (auto simp: replicate_app_Cons_same)
  qed
qed

lemma postNetNode_batch_released:
  assumes "finds w net = Map.empty"
      and "postNetNode_batch X net node payload w = (r, w')"
  shows "\<exists>k. released w' = released w @ replicate k (net, Map.empty) \<and>
             (\<forall>response. r = Inr response \<longrightarrow> finds w' net = Map.empty) \<and>
             (\<forall>batch. r = Inr (WriteJson (JBatch batch)) \<longrightarrow> k = length (Results batch))"
proof (cases payload)
  case (Inl err)
  with assms show ?thesis
    by (intro exI [of _ 0]) (auto simp: postNetNode_batch_def)
next
  case (Inr infer)
  obtain rl w1 where l: "postNetNode_loop X net node 0 (Cases infer) [] w = (rl, w1)"
    by (cases "postNetNode_loop X net node 0 (Cases infer) [] w")
  from postNetNode_loop_released [OF assms(1) l] obtain k where
    k: "released w1 = released w @ replicate k (net, Map.empty)"
      "\<forall>results. rl = Inr results \<longrightarrow>
         finds w1 net = Map.empty \<and> k = length (Cases infer) \<and>
         length results = length ([]::singleJSON list) + length (Cases infer)"
    by blast
  from assms(2) Inr l k show ?thesis
    by (intro exI [of _ k]) (cases rl; auto simp: postNetNode_batch_def)
qed

text \<open>
  C1. If the network holds no finding when \<open>postNetNode\<close> is entered, then every release
  of the network's lock during the handler leaves the network without findings, in each of
  the three branches, and so does the handler when it returns a response; a batch that is
  returned has one release for each of its results.
\<close>

theorem postNetNode_releases_without_findings:
  assumes "netLookup netID = Some net" and "finds w net = Map.empty"
      and "postNetNode X netsJSON netLookup netID nodeID payload w = (r, w')"
  shows "\<exists>k. released w' = released w @ replicate k (net, Map.empty) \<and>
             (\<forall>response. r = Inr response \<longrightarrow> finds w' net = Map.empty) \<and>
             (\<forall>batch. r = Inr (WriteJson (JBatch batch)) \<longrightarrow> k = length (Results batch))"
proof (cases "netsJSON netID")
  case None
  with assms show ?thesis
    by (intro exI [of _ 0]) (auto simp: postNetNode_def)
next
  case (Some repr)
  obtain rn w1 where n: "NodeNamed X net nodeID w = (rn, w1)"
    by (cases "NodeNamed X net nodeID w")
  from quiet_NodeNamed [OF n] assms(2)
  have q1: "finds w1 net = Map.empty" "released w1 = released w"
    by (simp_all add: quiet_def frame_def)
  show ?thesis
  proof (cases rn)
    case (Inr node)
    with assms(1,3) Some n have "postNetNode_batch X net node payload w1 = (r, w')"
      by (simp add: postNetNode_def)
    from postNetNode_batch_released [OF q1(1) this] q1(2) show ?thesis by simp
  next
    case (Inl err)
    show ?thesis
    proof (cases "Atoi nodeID")
      case None
      with assms(1,3) Some n Inl q1 show ?thesis
        by (intro exI [of _ 0]) (auto simp: postNetNode_def)
    next
      case (Some index)
      show ?thesis
      proof (cases "0 \<le> index \<and> nat index < length (netNodes repr)")
        case False
        with assms(1,3) \<open>netsJSON netID = Some repr\<close> n Inl Some q1 show ?thesis
          by (intro exI [of _ 0]) (auto simp: postNetNode_def)
      next
        case True
        obtain rn2 w2 where
          n2: "NodeNamed X net (nodeName (netNodes repr ! nat index)) w1 = (rn2, w2)"
          by (cases "NodeNamed X net (nodeName (netNodes repr ! nat index)) w1")
        from quiet_NodeNamed [OF n2] q1
        have q2: "finds w2 net = Map.empty" "released w2 = released w"
          by (simp_all add: quiet_def frame_def)
        show ?thesis
        proof (cases rn2)
          case (Inl err2)
          with assms(1,3) \<open>netsJSON netID = Some repr\<close> n \<open>rn = Inl err\<close> Some True n2 q2
          show ?thesis
            by (intro exI [of _ 0]) (auto simp: postNetNode_def)
        next
          case (Inr node)
          with assms(1,3) \<open>netsJSON netID = Some repr\<close> n \<open>rn = Inl err\<close> Some True n2
          have "postNetNode_batch X net node payload w2 = (r, w')"
            by (simp add: postNetNode_def)
          from postNetNode_batch_released [OF q2(1) this] q2(2) show ?thesis by simp
        qed
      qed
    qed
  qed
qed

section \<open>The concrete batch\<close>

lemma drained_same: "errq w = [] \<Longrightarrow> w\<lparr>errq := []\<rparr> = w"
  by (cases w) simp

lemma set_finding_fields [simp]:
  "netlocks (set_finding node f w) = netlocks w"
  "released (set_finding node f w) = released w"
  "logged (set_finding node f w) = logged w"
  "errq (set_finding node f w) = errq w"
  "desc (set_finding node f w) = desc w"
  by (simp_all add: set_finding_def)

lemma Println_fields [simp]:
  "netlocks (Println msg w) = netlocks w"
  "released (Println msg w) = released w"
  "finds (Println msg w) = finds w"
  "errq (Println msg w) = errq w"
  "desc (Println msg w) = desc w"
  by (simp_all add: Println_def)

lemma demo_like_simps [simp]:
  "demo_like demo_world"
  "demo_like w \<Longrightarrow> demo_like (set_finding node f w)"
  "demo_like w \<Longrightarrow> demo_like (w\<lparr>finds := F\<rparr>)"
  "demo_like w \<Longrightarrow> demo_like (w\<lparr>netlocks := L\<rparr>)"
  "demo_like w \<Longrightarrow> demo_like (w\<lparr>released := R\<rparr>)"
  "demo_like w \<Longrightarrow> demo_like (Println msg w)"
  by (simp_all add: demo_like_def demo_world_fields set_finding_def Println_def)

lemma demo_like_NodeMap: "demo_like w \<Longrightarrow> NodeMap demo_extern 0 w = (Inr demo_nodeMap, w)"
  by (simp add: demo_like_def demo_NodeMap)

lemma demo_like_bogus:
  "demo_like w \<Longrightarrow> EnterFinding demo_extern (0, Suc 0) ''bogus'' w
     = (Some ''In function Node.StateNamed: state bogus not defined for node Code'', w)"
  by (simp add: demo_like_def demo_EnterFinding_bogus)

lemma demo_like_reads:
  assumes "demo_like w"
  shows "the_node w (0, 0) = Some (demo_nodes ! 0)" "the_node w (0, 3) = Some (demo_nodes ! 3)"
    "number_states w (0, 0) = 3" "number_states w (0, 3) = 3"
  using assms
  by (simp_all add: demo_like_def number_states_def the_node_def demo_net_def demo_nodes_def)

lemma demo_like_open:
  assumes "demo_like w"
  shows "EnterFinding demo_extern (0, 3) ''open'' w
           = (None, set_finding (0, 3) (Some (StateFinding 0)) w)"
proof -
  have e: "errq w = []" using assms by (simp add: demo_like_def)
  have s: "state_named w ''open'' (0, 3) = 0"
    by (simp add: state_named_def demo_like_reads [OF assms] demo_nodes_def)
  have u: "(0::int) \<noteq> UNDEF_STATE" by (simp add: UNDEF_STATE_def)
  have sn: "StateNamed demo_extern (0, 3) ''open'' w = (Inr 0, w)"
    using u by (simp add: StateNamed_def s demo_quiet_call query_def Errors_none e)
  have r: "demo_reports (EnterFinding_bn (0, 3) 0) w = []"
    by (simp add: demo_reports_def demo_like_reads [OF assms])
  have ss: "SetState demo_extern (0, 3) 0 w = (None, set_finding (0, 3) (Some (StateFinding 0)) w)"
    by (simp add: SetState_def state_bn_def C_def r demo_extern_fields e
        set_finding_def Errors_eq drained_same)
  show ?thesis
    by (simp add: EnterFinding_def demo_extern_fields Atoi_def digit_val_def HasPrefix_def sn ss)
qed

lemma demo_like_Infer:
  assumes "demo_like w"
  shows "Infer demo_extern (0, 0) w = (Inr ''Medium'', w)"
proof -
  have e: "errq w = []" using assms by (simp add: demo_like_def)
  have v: "Value demo_extern (0, 0) w = (Inl undefined_expected_value, w)"
    by (simp add: Value_def demo_quiet_call query_def demo_extern_fields e Errors_none)
  have b: "BeliefList demo_extern (0, 0) w = (Inr [2, 5, 3], w)"
    by (simp add: BeliefList_def Let_def demo_quiet_call query_def demo_like_reads [OF assms]
        demo_extern_fields e Errors_none small_upt)
  have s: "State demo_extern (0, 0) w = (Inr 1, w)"
    by (simp add: State_def b demo_extern_fields)
  show ?thesis
    by (simp add: Infer_def v s state_name_def state_bn_def demo_like_reads [OF assms]
        demo_nodes_def demo_quiet_call query_def e Errors_none)
qed

lemma demo_like_ClearCases:
  "demo_like w \<Longrightarrow> ClearCases demo_extern 0 w = (None, w\<lparr>finds := (finds w)(0 := Map.empty)\<rparr>)"
  by (simp add: ClearCases_def C_def demo_extern_fields demo_reports_def demo_like_def
      Errors_eq drained_same)

lemma demo_like_NodeNamed:
  "demo_like w \<Longrightarrow> NodeNamed demo_extern 0 ''Level'' w = (Inr (0, 0), w)"
  by (simp add: NodeNamed_def Let_def node_named_def demo_like_def demo_net_def demo_nodes_def
      demo_quiet_call query_def)

lemma demo_case_bogus:
  assumes "demo_like w" and "netlocks w 0 = Some False"
  shows "\<exists>w'. postNetNode_case demo_extern 0 node index [''Code'' \<mapsto> ''bogus''] w
               = (Inr \<lparr>resIndex = index,
                       resError = ''In function Node.StateNamed: state bogus not defined for node Code'',
                       resValue = []\<rparr>, w') \<and>
              demo_like w' \<and> netlocks w' 0 = Some False"
proof -
  let ?u = "w\<lparr>netlocks := (netlocks w)(0 \<mapsto> True)\<rparr>"
  have u: "demo_like ?u" using assms(1) by simp
  have e: "EnterCase demo_extern 0 [''Code'' \<mapsto> ''bogus''] ?u
             = (Some ''In function Node.StateNamed: state bogus not defined for node Code'',
                ?u\<lparr>finds := (finds ?u)(0 := Map.empty)\<rparr>)"
    using u
    by (simp add: EnterCase_def demo_like_NodeMap demo_go_range demo_nodeMap_def
        demo_like_bogus demo_like_ClearCases)
  show ?thesis
    using assms u by (auto simp: postNetNode_case_def Lock_eq e Unlock_eq)
qed

lemma demo_case_open:
  assumes "demo_like w" and "netlocks w 0 = Some False"
  shows "\<exists>w'. postNetNode_case demo_extern 0 (0, 0) index [''Gate'' \<mapsto> ''open''] w
               = (Inr \<lparr>resIndex = index, resError = [], resValue = ''Medium''\<rparr>, w') \<and>
              demo_like w' \<and> netlocks w' 0 = Some False"
proof -
  let ?u = "w\<lparr>netlocks := (netlocks w)(0 \<mapsto> True)\<rparr>"
  have u: "demo_like ?u" using assms(1) by simp
  have e: "EnterCase demo_extern 0 [''Gate'' \<mapsto> ''open''] ?u
             = (None, set_finding (0, 3) (Some (StateFinding 0)) ?u)"
    using u
    by (simp add: EnterCase_def demo_like_NodeMap demo_go_range demo_nodeMap_def demo_like_open)
  have i: "Infer demo_extern (0, 0) (set_finding (0, 3) (Some (StateFinding 0)) ?u)
             = (Inr ''Medium'', set_finding (0, 3) (Some (StateFinding 0)) ?u)"
    using u by (simp add: demo_like_Infer)
  have c: "ClearCases demo_extern 0 (set_finding (0, 3) (Some (StateFinding 0)) ?u)
             = (None, (set_finding (0, 3) (Some (StateFinding 0)) ?u)
                        \<lparr>finds := (finds (set_finding (0, 3) (Some (StateFinding 0)) ?u))
                                    (0 := Map.empty)\<rparr>)"
    using u by (simp add: demo_like_ClearCases)
  show ?thesis
    using assms u
    by (auto simp: postNetNode_case_def Lock_eq e i c Unlock_eq)
qed

lemma demo_batch_results:
  "fst (postNetNode_batch demo_extern 0 (0, 0) (Inr demo_payload) demo_world)
     = Inr (WriteJson (JBatch
         \<lparr>batchID = ''batch-1'',
          Results =
            [\<lparr>resIndex = 0,
              resError = ''In function Node.StateNamed: state bogus not defined for node Code'',
              resValue = []\<rparr>,
             \<lparr>resIndex = 1, resError = [], resValue = ''Medium''\<rparr>]\<rparr>))"
proof -
  have k: "netlocks demo_world 0 = Some False" by (simp add: demo_world_fields)
  from demo_case_bogus [OF demo_like_simps(1) k, where index = 0 and node = "(0, 0)"] obtain w1 where
    c1: "postNetNode_case demo_extern 0 (0, 0) 0 [''Code'' \<mapsto> ''bogus''] demo_world
           = (Inr \<lparr>resIndex = 0,
                   resError = ''In function Node.StateNamed: state bogus not defined for node Code'',
                   resValue = []\<rparr>, w1)"
    and d1: "demo_like w1" and k1: "netlocks w1 0 = Some False"
    by blast
  from demo_case_open [OF d1 k1, of 1] obtain w2 where
    c2: "postNetNode_case demo_extern 0 (0, 0) 1 [''Gate'' \<mapsto> ''open''] w1
           = (Inr \<lparr>resIndex = 1, resError = [], resValue = ''Medium''\<rparr>, w2)"
    by blast
  show ?thesis
    using c1 c2 by (simp add: postNetNode_batch_def demo_payload_def)
qed

lemma demo_batch:
  "fst (postNetNode demo_extern demo_netsJSON demo_netLookup ''Dam'' ''Level''
         (Inr demo_payload) demo_world)
     = Inr (WriteJson (JBatch
         \<lparr>batchID = ''batch-1'',
          Results =
            [\<lparr>resIndex = 0,
              resError = ''In function Node.StateNamed: state bogus not defined for node Code'',
              resValue = []\<rparr>,
             \<lparr>resIndex = 1, resError = [], resValue = ''Medium''\<rparr>]\<rparr>))"
  using demo_batch_results
  by (simp add: postNetNode_def demo_netsJSON_def demo_netLookup_def demo_like_NodeNamed)

theorem postNetNode_releases_without_findings_witness:
  "fst (postNetNode demo_extern demo_netsJSON demo_netLookup ''Dam'' ''Level''
         (Inr demo_payload) demo_world)
     = Inr (WriteJson (JBatch
         \<lparr>batchID = ''batch-1'',
          Results =
            [\<lparr>resIndex = 0,
              resError = ''In function Node.StateNamed: state bogus not defined for node Code'',
              resValue = []\<rparr>,
             \<lparr>resIndex = 1, resError = [], resValue = ''Medium''\<rparr>]\<rparr>)) \<and>
   released (snd (postNetNode demo_extern demo_netsJSON demo_netLookup ''Dam'' ''Level''
                   (Inr demo_payload) demo_world))
     = [(0, Map.empty), (0, Map.empty)] \<and>
   finds (snd (postNetNode demo_extern demo_netsJSON demo_netLookup ''Dam'' ''Level''
                (Inr demo_payload) demo_world)) 0 = Map.empty"
proof -
  let ?p = "postNetNode demo_extern demo_netsJSON demo_netLookup ''Dam'' ''Level''
              (Inr demo_payload) demo_world"
  have l: "demo_netLookup ''Dam'' = Some 0" by (simp add: demo_netLookup_def)
  have f: "finds demo_world 0 = Map.empty" by (simp add: demo_world_fields)
  have p: "?p = (fst ?p, snd ?p)" by simp
  from postNetNode_releases_without_findings [OF l f p] obtain k where
    r: "released (snd ?p) = released demo_world @ replicate k (0, Map.empty)"
    and e: "\<forall>response. fst ?p = Inr response \<longrightarrow> finds (snd ?p) 0 = Map.empty"
    and b: "\<forall>batch. fst ?p = Inr (WriteJson (JBatch batch)) \<longrightarrow> k = length (Results batch)"
    by blast
  from b demo_batch have "k = 2" by simp
  with r have "released (snd ?p) = [(0, Map.empty), (0, Map.empty)]"
    by (simp add: demo_world_fields numeral_2_eq_2)
  moreover from e demo_batch have "finds (snd ?p) 0 = Map.empty" by simp
  ultimately show ?thesis using demo_batch by simp
qed


section \<open>A batch on a target node without states\<close>





section \<open>Unknown identifiers at the query surface\<close>

lemma unknown_network_not_found:
  assumes "netsJSON netID = None"
  shows "getNetNode netsJSON netID nodeID = NotFound"
    and "postNetNode X netsJSON netLookup netID nodeID payload w = (Inr NotFound, w)"
  using assms by (simp_all add: getNetNode_def postNetNode_def)

lemma getNetNode_loop_unknown:
  "\<forall>j<length nodes. Itoa (int (index + j)) \<noteq> nodeID \<and> nodeName (nodes ! j) \<noteq> nodeID \<Longrightarrow>
     getNetNode_loop nodeID nodes index = NotFound"
proof (induction nodes arbitrary: index)
  case Nil
  then show ?case by simp
next
  case (Cons node rest)
  from Cons.prems have h: "Itoa (int index) \<noteq> nodeID \<and> nodeName node \<noteq> nodeID"
    by (auto dest: spec [of _ 0])
  have "\<forall>j<length rest. Itoa (int (Suc index + j)) \<noteq> nodeID \<and> nodeName (rest ! j) \<noteq> nodeID"
  proof (intro allI impI)
    fix j assume "j < length rest"
    with Cons.prems [rule_format, of "Suc j"]
    show "Itoa (int (Suc index + j)) \<noteq> nodeID \<and> nodeName (rest ! j) \<noteq> nodeID" by simp
  qed
  from Cons.IH [OF this] h show ?case by simp
qed

lemma unknown_node_name_not_found:
  assumes "netsJSON netID = Some repr" and "netLookup netID = Some net"
      and "node_named w nodeID net = None" and "Atoi nodeID = None"
  shows "fst (postNetNode X netsJSON netLookup netID nodeID payload w) = Inr NotFound"
  using assms
  by (simp add: postNetNode_def NodeNamed_def Let_def split: prod.splits)

lemma unknown_node_index_panics:
  assumes "netsJSON netID = Some repr" and "netLookup netID = Some net"
      and "node_named w nodeID net = None" and "Atoi nodeID = Some index"
      and "\<not> (0 \<le> index \<and> nat index < length (netNodes repr))"
  shows "fst (postNetNode X netsJSON netLookup netID nodeID payload w) = Inl IndexOutOfRange"
proof -
  obtain nm w1 where n: "Network_Name X net (C X (GetNodeNamed_bn nodeID net) w) = (nm, w1)"
    by (cases "Network_Name X net (C X (GetNodeNamed_bn nodeID net) w)")
  from assms n show ?thesis
    by (auto simp: postNetNode_def NodeNamed_def Let_def)
qed

lemma demo_getNetNode_7: "getNetNode demo_netsJSON ''Dam'' ''7'' = NotFound"
  by (simp add: getNetNode_def demo_netsJSON_def demo_netJSON_def Itoa_def digits.simps
      digit_char_def)

text \<open>
  C6 at the request for node \<open>7\<close> of the network \<open>Dam\<close>, which has four nodes: the
  describe-node handler answers not-found, the inference handler indexes the node list
  with 7 and panics.
\<close>

theorem postNetNode_unknown_index_panics:
  "getNetNode demo_netsJSON ''Dam'' ''7'' = NotFound \<and>
   postNetNode demo_extern demo_netsJSON demo_netLookup ''Dam'' ''7'' (Inr demo_payload) demo_world
     = (Inl IndexOutOfRange, demo_world)"
proof -
  have n: "node_named demo_world ''7'' 0 = None"
    by (simp add: node_named_def demo_world_fields demo_net_def demo_nodes_def)
  have a: "Atoi ''7'' = Some 7" by (simp add: Atoi_def digit_val_def)
  have l: "length (netNodes demo_netJSON) = 4" by (simp add: demo_netJSON_def)
  have "postNetNode demo_extern demo_netsJSON demo_netLookup ''Dam'' ''7'' (Inr demo_payload)
          demo_world = (Inl IndexOutOfRange, demo_world)"
    by (simp add: postNetNode_def demo_netsJSON_def demo_netLookup_def NodeNamed_def Let_def n a l
        demo_quiet_call query_def Network_Name_def)
  with demo_getNetNode_7 show ?thesis by simp
qed

lemma demo_NodeList:
  "NodeList demo_extern 0 demo_world = (Inr [(0, 1), (0, 2), (0, 3), (0, 0)], demo_world)"
proof -
  have s: "sort [''Gate'', ''Flow'', ''Code'', ''Level''] = [''Code'', ''Flow'', ''Gate'', ''Level'']"
    by simp
  show ?thesis
    by (simp add: NodeList_def demo_NodeMap demo_world_fields demo_go_range demo_nodeMap_def s
        List.map_filter_simps)
qed

lemma demo_node_texts:
  "node_field node_title demo_world (0, 0) = ''Water level''"
  "node_field node_title demo_world (0, Suc 0) = ''Alarm code''"
  "node_field node_title demo_world (0, 2) = ''Inflow''"
  "node_field node_title demo_world (0, 3) = ''Sluice gate''"
  "node_field node_comment demo_world node = []"
  by (auto simp: node_field_def the_node_def demo_world_fields demo_net_def demo_nodes_def
      nth_Cons split: nat.splits)

lemma demo_StateNameList:
  "StateNameList demo_extern (0, 0) demo_world = (Inr [''Low'', ''Medium'', ''High''], demo_world)"
  "StateNameList demo_extern (0, Suc 0) demo_world = (Inr [''41'', ''42''], demo_world)"
  "StateNameList demo_extern (0, 2) demo_world = (Inr [], demo_world)"
  "StateNameList demo_extern (0, 3) demo_world = (Inr [''open'', [], ''shut''], demo_world)"
  by (simp_all add: StateNameList_def demo_number_states small_upt demo_quiet_call query_def
      state_name_def state_bn_def demo_the_node demo_nodes_def Errors_none demo_world_fields)

lemma demo_LevelList: "LevelList demo_extern node demo_world = (Inr [], demo_world)"
proof -
  have "(case the_node demo_world node of None \<Rightarrow> None | Some d \<Rightarrow> node_levels d) = None"
    by (auto simp: the_node_def demo_world_fields demo_net_def demo_nodes_def nth_Cons
        split: nat.splits option.splits)
  then show ?thesis
    by (simp add: LevelList_def Let_def demo_quiet_call query_def)
qed

lemma demo_buildJSON:
  "buildJSON demo_extern [0] demo_world
     = (([demo_netJSON\<lparr>netNodes := []\<rparr>], demo_netsJSON), demo_world)"
  apply (simp add: buildJSON_def Network_Name_def Network_Title_def Network_Comment_def
      demo_quiet_call query_def demo_NodeList demo_Node_Name Node_Title_def Node_Comment_def
      demo_node_names [OF demo_world_fields(3)] demo_node_texts demo_StateNameList demo_LevelList
      demo_world_fields demo_net_def demo_netJSON_def demo_netsJSON_def
      Itoa_def digits.simps digit_char_def Let_def)
  apply (simp add: numeral_2_eq_2 numeral_3_eq_3)
  done

section \<open>Loading the networks\<close>

lemma C_fields [simp]:
  "logged (C X c w) = logged w"
  "released (C X c w) = released w"
  "netlocks (C X c w) = netlocks w"
  by (cases c; simp add: C_def set_finding_def)+
























lemma demo_C_same: "errq w = [] \<Longrightarrow> query c \<Longrightarrow> C demo_extern c w = w"
  by (simp add: demo_quiet_call)


lemma demo_net_Dam: "demo_net\<lparr>net_name := ''Dam''\<rparr> = demo_net" "net_name demo_net = ''Dam''"
  by (simp_all add: demo_net_def)

















section \<open>Listing the networks\<close>

lemma NetworkList_loop_eq:
  "\<exists>w'. NetworkList_loop X index networks w = (networks @ drop index (live w), w')"
proof (induction X index networks w rule: NetworkList_loop.induct)
  case (1 X index networks w)
  let ?w1 = "C X (GetNthNet_bn index) w"
  let ?w2 = "C X (GetNthNet_bn index) ?w1"
  have l: "live ?w1 = live w" "live ?w2 = live w" by (simp_all add: C_def)
  show ?case
  proof (cases "index < length (live w)")
    case False
    then show ?thesis
      by (subst NetworkList_loop.simps) (simp add: nth_net_def)
  next
    case True
    then have n: "nth_net w index = Some (live w ! index)"
      "nth_net ?w1 index = Some (live w ! index)"
      by (simp_all add: nth_net_def l)
    from "1" [OF n] obtain w' where
      "NetworkList_loop X (Suc index) (networks @ [live w ! index]) ?w2
         = ((networks @ [live w ! index]) @ drop (Suc index) (live ?w2), w')"
      by blast
    with True n l show ?thesis
      by (subst NetworkList_loop.simps) (simp add: Cons_nth_drop_Suc)
  qed
qed

lemma NetworkList_order:
  "NetworkList X w = (Inr networks, w') \<Longrightarrow> networks = live w"
  using NetworkList_loop_eq [of X 0 "[]" w]
  by (auto simp: NetworkList_def split: prod.splits option.splits)

lemma quiet_buildJSON_nodes:
  "buildJSON_nodes X nodeList index nodes w = (nodes', w') \<Longrightarrow> quiet w w'"
proof (induction nodeList arbitrary: index nodes w)
  case Nil
  then show ?case by simp
next
  case (Cons node rest)
  obtain name w1 where a: "Node_Name X node w = (name, w1)" by (cases "Node_Name X node w")
  obtain title w2 where b: "Node_Title X node w1 = (title, w2)" by (cases "Node_Title X node w1")
  obtain comment w3 where c: "Node_Comment X node w2 = (comment, w3)"
    by (cases "Node_Comment X node w2")
  obtain rs w4 where d: "StateNameList X node w3 = (rs, w4)" by (cases "StateNameList X node w3")
  obtain rl w5 where e: "LevelList X node w4 = (rl, w5)" by (cases "LevelList X node w4")
  have q4: "quiet w w4"
    using quiet_Node_Name [OF a] quiet_Node_Title [OF b] quiet_Node_Comment [OF c]
      quiet_StateNameList [OF d]
    by (blast intro: quiet_trans)
  have q5: "quiet w w5" using q4 quiet_LevelList [OF e] by (rule quiet_trans)
  show ?case
  proof (cases rs)
    case (Inl err)
    with Cons.prems a b c d q4 show ?thesis by simp
  next
    case (Inr names)
    show ?thesis
    proof (cases rl)
      case (Inl err)
      with Cons.prems a b c d e Inr q5 show ?thesis by simp
    next
      case (Inr levels)
      with Cons.prems a b c d e \<open>rs = Inr names\<close>
      have "buildJSON_nodes X rest (Suc index)
              (nodes @ [\<lparr>nodeIndex = index, nodeName = name, nodeTitle = title,
                          nodeComment = comment, nodeStates = names, nodeLevels = levels\<rparr>]) w5
              = (nodes', w')"
        by simp
      from q5 Cons.IH [OF this] show ?thesis by (rule quiet_trans)
    qed
  qed
qed

lemma buildJSON_loop_list:
  "buildJSON_loop X netList index list nets w = ((list', nets'), w') \<Longrightarrow>
     desc w' = desc w \<and>
     (\<exists>new. list' = list @ new \<and> sorted_wrt (<) (map netIndex new) \<and>
        (\<forall>r\<in>set new. index \<le> netIndex r \<and> netIndex r < index + length netList \<and>
           netName r = net_name (desc w (netList ! (netIndex r - index))) \<and> netNodes r = []))"
proof (induction netList arbitrary: index list nets w)
  case Nil
  then show ?case by simp
next
  case (Cons net rest)
  obtain name w1 where a: "Network_Name X net w = (name, w1)" by (cases "Network_Name X net w")
  obtain title w2 where b: "Network_Title X net w1 = (title, w2)"
    by (cases "Network_Title X net w1")
  obtain comment w3 where c: "Network_Comment X net w2 = (comment, w3)"
    by (cases "Network_Comment X net w2")
  obtain rn w4 where d: "NodeList X net w3 = (rn, w4)" by (cases "NodeList X net w3")
  have nm: "name = net_name (desc w net)" using a by (simp add: Network_Name_def)
  have q4: "quiet w w4"
    using quiet_Network_Name [OF a] quiet_Network_Title [OF b] quiet_Network_Comment [OF c]
      quiet_NodeList [OF d]
    by (blast intro: quiet_trans)
  then have d4: "desc w4 = desc w" by (simp add: quiet_def frame_def)
  let ?netRepr = "\<lparr>netIndex = index, netName = name, netTitle = title,
                   netComment = comment, netNodes = []\<rparr>"
  have shift: "\<And>k. Suc index \<le> k \<Longrightarrow> (net # rest) ! (k - index) = rest ! (k - Suc index)"
    by (simp add: nth_Cons split: nat.splits) (metis Suc_diff_Suc Suc_le_lessD nat.inject)
  show ?case
  proof (cases rn)
    case (Inl err)
    with Cons.prems a b c d
    have r: "buildJSON_loop X rest (Suc index) list nets (Println err w4) = ((list', nets'), w')"
      by (simp add: Let_def)
    from Cons.IH [OF r] d4 obtain new where
      n: "desc w' = desc w" "list' = list @ new" "sorted_wrt (<) (map netIndex new)"
        "\<forall>r\<in>set new. Suc index \<le> netIndex r \<and> netIndex r < Suc index + length rest \<and>
           netName r = net_name (desc w (rest ! (netIndex r - Suc index))) \<and> netNodes r = []"
      by (auto simp: Println_def)
    show ?thesis
      using n shift by (intro conjI exI [of _ new]) auto
  next
    case (Inr nodeList)
    obtain nodes w5 where e: "buildJSON_nodes X nodeList 0 [] w4 = (nodes, w5)"
      by (cases "buildJSON_nodes X nodeList 0 [] w4")
    from quiet_buildJSON_nodes [OF e] d4 have d5: "desc w5 = desc w"
      by (simp add: quiet_def frame_def)
    from Cons.prems a b c d Inr e
    have r: "buildJSON_loop X rest (Suc index) (list @ [?netRepr])
               (nets(name \<mapsto> ?netRepr\<lparr>netNodes := nodes\<rparr>,
                     Itoa (int index) \<mapsto> ?netRepr\<lparr>netNodes := nodes\<rparr>)) w5
               = ((list', nets'), w')"
      by (simp add: Let_def)
    from Cons.IH [OF r] d5 obtain new where
      n: "desc w' = desc w" "list' = (list @ [?netRepr]) @ new" "sorted_wrt (<) (map netIndex new)"
        "\<forall>r\<in>set new. Suc index \<le> netIndex r \<and> netIndex r < Suc index + length rest \<and>
           netName r = net_name (desc w (rest ! (netIndex r - Suc index))) \<and> netNodes r = []"
      by auto
    show ?thesis
      using n shift nm by (intro conjI exI [of _ "?netRepr # new"]) auto
  qed
qed

text \<open>
  C9, as the code has it. \<open>Environment.NetworkList\<close> returns the networks of the engine in
  the order in which they were read. The listing of the API is the list that \<open>buildJSON\<close>
  made once from the registry list: its entries stand in the order of that list (the order
  in which the walk loaded the files), each with its position there as index and with the
  name of the network at that position. Neither sorts by name.
\<close>

theorem listing_in_load_order:
  "(\<forall>networks w'. NetworkList X w = (Inr networks, w') \<longrightarrow> networks = live w) \<and>
   (\<forall>list nets w'. buildJSON X netList w = ((list, nets), w') \<longrightarrow>
      getNets list = WriteJson (JNets list) \<and>
      sorted_wrt (<) (map netIndex list) \<and>
      (\<forall>r\<in>set list. netIndex r < length netList \<and>
         netName r = net_name (desc w (netList ! netIndex r))))"
proof (intro conjI allI impI)
  fix networks w'
  assume "NetworkList X w = (Inr networks, w')"
  then show "networks = live w" by (rule NetworkList_order)
next
  fix list nets w'
  assume b: "buildJSON X netList w = ((list, nets), w')"
  show "getNets list = WriteJson (JNets list)" by (simp add: getNets_def)
  from buildJSON_loop_list [OF b [unfolded buildJSON_def]]
  show "sorted_wrt (<) (map netIndex list)"
    and "\<forall>r\<in>set list. netIndex r < length netList \<and>
         netName r = net_name (desc w (netList ! netIndex r))"
    by auto
qed

lemma for_collect_same:
  "for_collect (\<lambda>index u. (g index u, u)) indices w = (map (\<lambda>index. g index w) indices, w)"
  by (induction indices) simp_all

lemma demo_StateNameList_any:
  "errq w = [] \<Longrightarrow> \<exists>names. StateNameList demo_extern node w = (Inr names, w)"
  by (simp add: StateNameList_def Let_def demo_quiet_call query_def for_collect_same Errors_none)

lemma demo_LevelList_any:
  "errq w = [] \<Longrightarrow> \<exists>levels. LevelList demo_extern node w = (Inr levels, w)"
  by (simp add: LevelList_def Let_def demo_quiet_call query_def IsContinuousType_def
      for_collect_same Errors_none split: option.splits)

lemma demo_buildJSON_nodes_any:
  "errq w = [] \<Longrightarrow> \<exists>nodes'. buildJSON_nodes demo_extern nodeList index nodes w = (nodes', w)"
proof (induction nodeList arbitrary: index nodes)
  case Nil
  then show ?case by simp
next
  case (Cons node rest)
  obtain names where n: "StateNameList demo_extern node w = (Inr names, w)"
    using demo_StateNameList_any [OF Cons.prems] by blast
  obtain levels where l: "LevelList demo_extern node w = (Inr levels, w)"
    using demo_LevelList_any [OF Cons.prems] by blast
  show ?case
    using Cons.IH [OF Cons.prems]
    by (simp add: demo_Node_Name Node_Title_def Node_Comment_def demo_quiet_call query_def n l)
qed

lemma demo_NodeMap_loop_any:
  "\<exists>nodes'. NodeMap_loop demo_extern net indices nodes w = (nodes', w)"
  by (induction indices arbitrary: nodes) (simp_all add: demo_quiet_call query_def demo_Node_Name)

lemma demo_NodeList_any:
  "errq w = [] \<Longrightarrow> \<exists>nodeList. NodeList demo_extern net w = (Inr nodeList, w)"
proof -
  assume e: "errq w = []"
  obtain m where m: "NodeMap_loop demo_extern net (rev [0..<length (net_nodes (desc w net))]) [] w
                       = (m, w)"
    using demo_NodeMap_loop_any by blast
  show ?thesis
    by (simp add: NodeList_def NodeMap_def Let_def demo_quiet_call query_def m Errors_none e)
qed

lemma demo_buildJSON_loop_step:
  assumes "errq w = []"
  shows "\<exists>nets'. buildJSON_loop demo_extern (net # rest) index list nets w
           = buildJSON_loop demo_extern rest (Suc index)
               (list @ [\<lparr>netIndex = index, netName = net_name (desc w net),
                          netTitle = net_title (desc w net),
                          netComment = net_comment (desc w net), netNodes = []\<rparr>]) nets' w"
proof -
  obtain nodeList where n: "NodeList demo_extern net w = (Inr nodeList, w)"
    using demo_NodeList_any [OF assms] by blast
  obtain nodes where b: "buildJSON_nodes demo_extern nodeList 0 [] w = (nodes, w)"
    using demo_buildJSON_nodes_any [OF assms] by blast
  show ?thesis
    by (simp add: Network_Name_def Network_Title_def Network_Comment_def demo_quiet_call
        query_def n b Let_def) blast
qed

lemma demo_two_fields:
  "errq demo_two = []" "live demo_two = [0, 2]"
  "net_name (desc demo_two 0) = ''Dam''" "net_name (desc demo_two 2) = ''Creek''"
  by (simp_all add: demo_two_def demo_net_Dam)

lemma demo_two_NetworkList: "NetworkList demo_extern demo_two = (Inr [0, 2], demo_two)"
proof -
  have n: "nth_net demo_two 0 = Some 0" "nth_net demo_two (Suc 0) = Some 2"
    "nth_net demo_two (Suc (Suc 0)) = None"
    by (simp_all add: nth_net_def demo_two_fields)
  show ?thesis
    by (simp add: NetworkList_def NetworkList_loop.simps [of _ _ _ demo_two] n demo_quiet_call
        query_def Errors_none demo_two_fields)
qed

lemma demo_two_buildJSON:
  "map netName (fst (fst (buildJSON demo_extern [0, 2] demo_two))) = [''Dam'', ''Creek'']"
proof -
  obtain n1 where a: "buildJSON demo_extern [0, 2] demo_two
      = buildJSON_loop demo_extern [2] (Suc 0)
               ([] @ [\<lparr>netIndex = 0, netName = net_name (desc demo_two 0),
                          netTitle = net_title (desc demo_two 0),
                          netComment = net_comment (desc demo_two 0), netNodes = []\<rparr>]) n1 demo_two"
    unfolding buildJSON_def using demo_buildJSON_loop_step [OF demo_two_fields(1)] by blast
  obtain n2 where b: "buildJSON_loop demo_extern [2] (Suc 0)
               ([] @ [\<lparr>netIndex = 0, netName = net_name (desc demo_two 0),
                          netTitle = net_title (desc demo_two 0),
                          netComment = net_comment (desc demo_two 0), netNodes = []\<rparr>]) n1 demo_two
      = buildJSON_loop demo_extern [] (Suc (Suc 0))
               (([] @ [\<lparr>netIndex = 0, netName = net_name (desc demo_two 0),
                          netTitle = net_title (desc demo_two 0),
                          netComment = net_comment (desc demo_two 0), netNodes = []\<rparr>])
                 @ [\<lparr>netIndex = Suc 0, netName = net_name (desc demo_two 2),
                          netTitle = net_title (desc demo_two 2),
                          netComment = net_comment (desc demo_two 2), netNodes = []\<rparr>]) n2 demo_two"
    using demo_buildJSON_loop_step [OF demo_two_fields(1)] by blast
  show ?thesis by (simp only: a b) (simp add: demo_two_fields)
qed

text \<open>
  C9 as the specification words it does not hold: after the walk over \<open>demo_walk\<close> the
  registry lists \<open>Dam\<close> before \<open>Creek\<close>, and so do \<open>NetworkList\<close> and the list that
  \<open>buildJSON\<close> makes for the API.
\<close>

theorem listing_not_sorted_by_name:
  "fst (NetworkList demo_extern demo_two) = Inr [0, 2] \<and>
   net_name (desc demo_two 0) = ''Dam'' \<and> net_name (desc demo_two 2) = ''Creek'' \<and>
   map netName (fst (fst (buildJSON demo_extern [0, 2] demo_two))) = [''Dam'', ''Creek''] \<and>
   \<not> sorted [''Dam'', ''Creek''] \<and> sort [''Dam'', ''Creek''] = [''Creek'', ''Dam'']"
  by (simp add: demo_two_NetworkList demo_two_buildJSON demo_two_fields)

theorem listing_in_load_order_witness:
  "NetworkList demo_extern demo_two = (Inr [0, 2], demo_two) \<and> [0, 2] = live demo_two \<and>
   buildJSON demo_extern [0] demo_world
     = (([demo_netJSON\<lparr>netNodes := []\<rparr>], demo_netsJSON), demo_world) \<and>
   getNets [demo_netJSON\<lparr>netNodes := []\<rparr>] = WriteJson (JNets [demo_netJSON\<lparr>netNodes := []\<rparr>]) \<and>
   sorted_wrt (<) (map netIndex [demo_netJSON\<lparr>netNodes := []\<rparr>]) \<and>
   netIndex (demo_netJSON\<lparr>netNodes := []\<rparr>) < length [0::nat] \<and>
   netName (demo_netJSON\<lparr>netNodes := []\<rparr>)
     = net_name (desc demo_world ([0] ! netIndex (demo_netJSON\<lparr>netNodes := []\<rparr>)))"
proof -
  note t = listing_in_load_order [of demo_extern demo_two "[0]"]
  from t demo_two_NetworkList have a: "[0, 2] = live demo_two" by blast
  note u = listing_in_load_order [of demo_extern demo_world "[0]"]
  from u demo_buildJSON
  have b: "getNets [demo_netJSON\<lparr>netNodes := []\<rparr>] = WriteJson (JNets [demo_netJSON\<lparr>netNodes := []\<rparr>]) \<and>
      sorted_wrt (<) (map netIndex [demo_netJSON\<lparr>netNodes := []\<rparr>]) \<and>
      (\<forall>r\<in>set [demo_netJSON\<lparr>netNodes := []\<rparr>]. netIndex r < length [0::nat] \<and>
         netName r = net_name (desc demo_world ([0] ! netIndex r)))"
    by blast
  from a b demo_two_NetworkList demo_buildJSON show ?thesis by simp
qed

end
